theory Spec2Isabelle
  imports Main
begin

section \<open>Values exchanged with the outside world\<close>

text \<open>
  A JavaScript exception value: its \<open>name\<close> and its \<open>message\<close>, the two properties the
  services read. A rejected promise is \<open>Inl\<close> of such a value, a fulfilled one is \<open>Inr\<close>.
\<close>

datatype js_error = JsError (err_name: string) (err_message: string)

text \<open>
  A JSON object with string members, as an association list. \<open>None\<close> of type
  \<open>json_obj option\<close> is the JavaScript \<open>null\<close>. The \<open>data\<close> column of \<open>sync_queue\<close> only
  ever holds the output of \<open>JSON.stringify\<close>, so a stored value always parses.
\<close>

type_synonym json_obj = "(string \<times> string) list"

record password_data =
  pd_title :: string
  pd_username :: string
  pd_password :: string
  pd_website :: string
  pd_notes :: string

record user_info =
  ui_id :: string
  ui_email :: string
  ui_name :: string
  ui_picture :: string
  ui_verified_email :: bool

definition password_json :: "password_data \<Rightarrow> json_obj" where
  "password_json pd =
     [(''title'', pd_title pd), (''username'', pd_username pd), (''password'', pd_password pd),
      (''website'', pd_website pd), (''notes'', pd_notes pd)]"

record request =
  req_method :: string
  req_url :: string
  req_body :: "json_obj option option"

text \<open>
  What \<open>fetch\<close> gives back: the promise rejects (transport failure), or it resolves to a
  response with its \<open>ok\<close> flag and its body; \<open>resp_json = None\<close> is a body that
  \<open>response.json()\<close> cannot parse.
\<close>

record response =
  resp_ok :: bool
  resp_json :: "json_obj option"

datatype fetch_result = Rejects js_error | Resolves response

section \<open>The tables of DatabaseService\<close>

record user_row =
  u_id :: nat
  u_google_id :: string
  u_email :: string
  u_name :: string
  u_picture :: string
  u_verified_email :: nat
  u_created_at :: nat
  u_updated_at :: nat
  u_is_active :: nat
  u_synced :: nat

record password_row =
  p_id :: nat
  p_user_id :: nat
  p_title :: string
  p_username :: string
  p_password :: string
  p_website :: string
  p_notes :: string
  p_created_at :: nat
  p_updated_at :: nat
  p_synced :: nat
  p_deleted :: nat

record queue_item =
  q_id :: nat
  table_name :: string
  record_id :: nat
  operation :: string
  data :: "json_obj option"
  created_at :: nat
  attempts :: nat

section \<open>Events, calls and the state of the two services\<close>

datatype event =
    IsOnline bool
  | SyncInProgress bool
  | SyncCompleted nat nat
  | SyncFailed string

text \<open>
  The calls the claims speak about are recorded in the order they are made: every
  \<open>fetch\<close>, every call of \<open>removeSyncQueueItem\<close> and \<open>markAsSynced\<close>, the attempts
  increment, \<open>getCurrentUser\<close>, and the two console messages of the drain loop.
\<close>

datatype call =
    GatewayFetch request fetch_result
  | RemoveSyncQueueItem nat
  | MarkAsSynced string nat
  | IncrementAttempts nat
  | GetCurrentUser
  | WarnUnknownTable string
  | ErrorFailedItem nat

text \<open>
  One record holds the tables of the DatabaseService singleton (with the AUTOINCREMENT
  high-water marks), the fields of the SyncService singleton, and the history:
  \<open>clock\<close> counts the interactions with the outside world, \<open>calls\<close>, \<open>published\<close> and
  \<open>delivered\<close> log what happened, \<open>timers\<close> counts the pending \<open>setTimeout\<close> auto-syncs.
  A subscriber callback is known by a number (its identity under \<open>!==\<close>).

  Every method is modelled as one uninterrupted run from call to return: the database is
  open (\<open>initDB\<close> has run), and what other tasks could do between two \<open>await\<close>s of
  a method is not part of the model.
\<close>

record world =
  users :: "user_row list"
  passwords :: "password_row list"
  sync_queue :: "queue_item list"
  users_seq :: nat
  passwords_seq :: nat
  sync_queue_seq :: nat
  isOnline :: bool
  syncInProgress :: bool
  listeners :: "nat list"
  clock :: nat
  calls :: "call list"
  published :: "event list"
  delivered :: "(nat \<times> event) list"
  timers :: nat

datatype action = Subscribe nat | Unsubscribe nat

record reaction =
  actions :: "action list"
  throws :: "js_error option"

text \<open>
  The outside world, as oracles indexed by the clock: whether the SQL statement issued at
  that moment fails, the value of CURRENT\_TIMESTAMP, the answer of the network to a
  request, whether Google Sign-In has a current user, and what a subscriber callback does
  with an event (the subscriptions it changes, and whether it throws).
\<close>

record env =
  sql_error :: "nat \<Rightarrow> js_error option"
  now :: "nat \<Rightarrow> nat"
  fetch :: "nat \<Rightarrow> request \<Rightarrow> fetch_result"
  currentUser :: "nat \<Rightarrow> bool"
  callback :: "nat \<Rightarrow> nat \<Rightarrow> event \<Rightarrow> reaction"

definition tick :: "world \<Rightarrow> world" where
  "tick w = w\<lparr>clock := Suc (clock w)\<rparr>"

definition record_call :: "call \<Rightarrow> world \<Rightarrow> world" where
  "record_call c w = w\<lparr>calls := calls w @ [c]\<rparr>"

section \<open>DatabaseService\<close>

text \<open>
  \<open>db.executeSql\<close>: the statement either fails as a whole (the promise rejects and no
  table changes) or takes effect; it is given the current timestamp.
\<close>

definition executeSql ::
  "env \<Rightarrow> (nat \<Rightarrow> world \<Rightarrow> 'r \<times> world) \<Rightarrow> world \<Rightarrow> (js_error + 'r) \<times> world" where
  "executeSql env stmt w =
     (case sql_error env (clock w) of
        Some e \<Rightarrow> (Inl e, tick w)
      | None \<Rightarrow> (case stmt (now env (clock w)) w of (r, w') \<Rightarrow> (Inr r, tick w')))"

text \<open>AUTOINCREMENT: one more than the largest rowid the table has ever held.\<close>

definition fresh_id :: "nat list \<Rightarrow> nat \<Rightarrow> nat" where
  "fresh_id ids seq = Suc (fold max ids seq)"

text \<open>INSERT OR REPLACE INTO users: rows that clash on a UNIQUE column are deleted first.\<close>

definition insert_or_replace_user :: "user_info \<Rightarrow> nat \<Rightarrow> world \<Rightarrow> nat \<times> world" where
  "insert_or_replace_user ui ts w =
     (let i = fresh_id (map u_id (users w)) (users_seq w);
          kept = filter (\<lambda>r. u_google_id r \<noteq> ui_id ui \<and> u_email r \<noteq> ui_email ui) (users w);
          row = \<lparr>u_id = i, u_google_id = ui_id ui, u_email = ui_email ui, u_name = ui_name ui,
                 u_picture = ui_picture ui,
                 u_verified_email = (if ui_verified_email ui then 1 else 0),
                 u_created_at = ts, u_updated_at = ts, u_is_active = 1, u_synced = 0\<rparr>
      in (i, w\<lparr>users := kept @ [row], users_seq := i\<rparr>))"

definition insert_password :: "nat \<Rightarrow> password_data \<Rightarrow> nat \<Rightarrow> world \<Rightarrow> nat \<times> world" where
  "insert_password userId pd ts w =
     (let i = fresh_id (map p_id (passwords w)) (passwords_seq w);
          row = \<lparr>p_id = i, p_user_id = userId, p_title = pd_title pd,
                 p_username = pd_username pd, p_password = pd_password pd,
                 p_website = pd_website pd, p_notes = pd_notes pd,
                 p_created_at = ts, p_updated_at = ts, p_synced = 0, p_deleted = 0\<rparr>
      in (i, w\<lparr>passwords := passwords w @ [row], passwords_seq := i\<rparr>))"

definition update_password :: "nat \<Rightarrow> password_data \<Rightarrow> nat \<Rightarrow> world \<Rightarrow> unit \<times> world" where
  "update_password passwordId pd ts w =
     ((), w\<lparr>passwords :=
        map (\<lambda>r. if p_id r = passwordId
                 then r\<lparr>p_title := pd_title pd, p_username := pd_username pd,
                        p_password := pd_password pd, p_website := pd_website pd,
                        p_notes := pd_notes pd, p_updated_at := ts, p_synced := 0\<rparr>
                 else r) (passwords w)\<rparr>)"

definition soft_delete_password :: "nat \<Rightarrow> nat \<Rightarrow> world \<Rightarrow> unit \<times> world" where
  "soft_delete_password passwordId ts w =
     ((), w\<lparr>passwords :=
        map (\<lambda>r. if p_id r = passwordId
                 then r\<lparr>p_deleted := 1, p_synced := 0, p_updated_at := ts\<rparr>
                 else r) (passwords w)\<rparr>)"

definition insert_queue ::
  "string \<Rightarrow> nat \<Rightarrow> string \<Rightarrow> json_obj option \<Rightarrow> nat \<Rightarrow> world \<Rightarrow> unit \<times> world" where
  "insert_queue tableName recordId op d ts w =
     (let i = fresh_id (map q_id (sync_queue w)) (sync_queue_seq w);
          row = \<lparr>q_id = i, table_name = tableName, record_id = recordId, operation = op,
                 data = d, created_at = ts, attempts = 0\<rparr>
      in ((), w\<lparr>sync_queue := sync_queue w @ [row], sync_queue_seq := i\<rparr>))"

text \<open>SELECT * FROM sync\_queue ORDER BY created\_at ASC (equal timestamps in rowid order).\<close>

definition select_queue :: "nat \<Rightarrow> world \<Rightarrow> queue_item list \<times> world" where
  "select_queue ts w = (sort_key created_at (sync_queue w), w)"

definition delete_queue :: "nat \<Rightarrow> nat \<Rightarrow> world \<Rightarrow> unit \<times> world" where
  "delete_queue i ts w = ((), w\<lparr>sync_queue := filter (\<lambda>r. q_id r \<noteq> i) (sync_queue w)\<rparr>)"

definition increment_attempts :: "nat \<Rightarrow> nat \<Rightarrow> world \<Rightarrow> unit \<times> world" where
  "increment_attempts i ts w =
     ((), w\<lparr>sync_queue :=
        map (\<lambda>r. if q_id r = i then r\<lparr>attempts := attempts r + 1\<rparr> else r) (sync_queue w)\<rparr>)"

text \<open>UPDATE <tableName> SET synced = 1 WHERE id = ?, for the two tables that have the column.\<close>

definition set_synced :: "string \<Rightarrow> nat \<Rightarrow> nat \<Rightarrow> world \<Rightarrow> unit \<times> world" where
  "set_synced tableName recordId ts w =
     (if tableName = ''users''
      then ((), w\<lparr>users := map (\<lambda>r. if u_id r = recordId then r\<lparr>u_synced := 1\<rparr> else r) (users w)\<rparr>)
      else if tableName = ''passwords''
      then ((), w\<lparr>passwords :=
                  map (\<lambda>r. if p_id r = recordId then r\<lparr>p_synced := 1\<rparr> else r) (passwords w)\<rparr>)
      else ((), w))"

definition saveUserOffline :: "env \<Rightarrow> user_info \<Rightarrow> world \<Rightarrow> (js_error + nat) \<times> world" where
  "saveUserOffline env userInfo w = executeSql env (insert_or_replace_user userInfo) w"

text \<open>\<open>addToSyncQueue\<close> catches the error of its INSERT and only logs it.\<close>

definition addToSyncQueue ::
  "env \<Rightarrow> string \<Rightarrow> nat \<Rightarrow> string \<Rightarrow> json_obj option \<Rightarrow> world \<Rightarrow> world" where
  "addToSyncQueue env tableName recordId op d w =
     snd (executeSql env (insert_queue tableName recordId op d) w)"

definition savePassword ::
  "env \<Rightarrow> nat \<Rightarrow> password_data \<Rightarrow> world \<Rightarrow> (js_error + nat) \<times> world" where
  "savePassword env userId passwordData w =
     (case executeSql env (insert_password userId passwordData) w of
        (Inl e, w1) \<Rightarrow> (Inl e, w1)
      | (Inr insertId, w1) \<Rightarrow>
          (Inr insertId,
           addToSyncQueue env ''passwords'' insertId ''INSERT'' (Some (password_json passwordData)) w1))"

definition updatePassword ::
  "env \<Rightarrow> nat \<Rightarrow> password_data \<Rightarrow> world \<Rightarrow> (js_error + unit) \<times> world" where
  "updatePassword env passwordId passwordData w =
     (case executeSql env (update_password passwordId passwordData) w of
        (Inl e, w1) \<Rightarrow> (Inl e, w1)
      | (Inr _, w1) \<Rightarrow>
          (Inr (),
           addToSyncQueue env ''passwords'' passwordId ''UPDATE'' (Some (password_json passwordData)) w1))"

definition deletePassword :: "env \<Rightarrow> nat \<Rightarrow> world \<Rightarrow> (js_error + unit) \<times> world" where
  "deletePassword env passwordId w =
     (case executeSql env (soft_delete_password passwordId) w of
        (Inl e, w1) \<Rightarrow> (Inl e, w1)
      | (Inr _, w1) \<Rightarrow> (Inr (), addToSyncQueue env ''passwords'' passwordId ''DELETE'' None w1))"

text \<open>\<open>getSyncQueue\<close> answers the empty list when its SELECT fails.\<close>

definition getSyncQueue :: "env \<Rightarrow> world \<Rightarrow> queue_item list \<times> world" where
  "getSyncQueue env w =
     (case executeSql env select_queue w of
        (Inl e, w1) \<Rightarrow> ([], w1)
      | (Inr rows, w1) \<Rightarrow> (rows, w1))"

definition removeSyncQueueItem :: "env \<Rightarrow> nat \<Rightarrow> world \<Rightarrow> world" where
  "removeSyncQueueItem env i w =
     snd (executeSql env (delete_queue i) (record_call (RemoveSyncQueueItem i) w))"

definition markAsSynced :: "env \<Rightarrow> string \<Rightarrow> nat \<Rightarrow> world \<Rightarrow> world" where
  "markAsSynced env tableName recordId w =
     snd (executeSql env (set_synced tableName recordId)
            (record_call (MarkAsSynced tableName recordId) w))"

section \<open>AuthService: the parts the sync engine calls\<close>

definition API_BASE_URL :: string where
  "API_BASE_URL = ''https://secretvault-api.onrender.com/api''"

text \<open>\<open>String.prototype.includes\<close>.\<close>

fun starts_with :: "string \<Rightarrow> string \<Rightarrow> bool" where
  "starts_with s [] = True"
| "starts_with [] (c # cs) = False"
| "starts_with (d # ds) (c # cs) = (d = c \<and> starts_with ds cs)"

fun str_includes :: "string \<Rightarrow> string \<Rightarrow> bool" where
  "str_includes [] sub = (sub = [])"
| "str_includes (d # ds) sub = (starts_with (d # ds) sub \<or> str_includes ds sub)"

text \<open>Decimal rendering of a number inside a template literal.\<close>

fun show_nat :: "nat \<Rightarrow> string" where
  "show_nat n =
     (if n < 10 then [''0123456789'' ! n]
      else show_nat (n div 10) @ [''0123456789'' ! (n mod 10)])"

declare show_nat.simps [simp del]

definition do_fetch :: "env \<Rightarrow> request \<Rightarrow> world \<Rightarrow> fetch_result \<times> world" where
  "do_fetch env req w =
     (let res = fetch env (clock w) req
      in (res, tick (record_call (GatewayFetch req res) w)))"

definition getCurrentUser :: "env \<Rightarrow> world \<Rightarrow> bool \<times> world" where
  "getCurrentUser env w = (currentUser env (clock w), tick (record_call GetCurrentUser w))"

definition syntax_error :: js_error where
  "syntax_error = JsError ''SyntaxError'' ''JSON Parse error''"

text \<open>The members \<open>saveUserToDB\<close> copies into the body of its signup request.\<close>

definition signup_body :: "json_obj \<Rightarrow> json_obj" where
  "signup_body userInfo =
     List.map_filter (\<lambda>(k_out, k_in). map_option (Pair k_out) (map_of userInfo k_in))
       [(''google_id'', ''id''), (''email'', ''email''), (''name'', ''name''),
        (''picture'', ''picture''), (''verified_email'', ''verified_email'')]"

text \<open>The catch block of \<open>saveUserToDB\<close>: every error is thrown again under a new message.\<close>

definition saveUserToDB_rethrow :: "js_error \<Rightarrow> js_error" where
  "saveUserToDB_rethrow e =
     (if str_includes (err_message e) ''fetch'' \<or> err_name e = ''TypeError''
      then JsError ''Error''
             ''Cannot connect to server. Please make sure the backend server is running on http://localhost:3000''
      else JsError ''Error'' (''Failed to save user to database: '' @ err_message e))"

text \<open>
  \<open>saveUserToDB\<close> returns \<open>{success: false}\<close> for a response that is not ok, and throws
  only for a transport failure, an unparsable body or a null argument. The result here
  is the \<open>success\<close> member.
\<close>

definition saveUserToDB :: "env \<Rightarrow> json_obj option \<Rightarrow> world \<Rightarrow> (js_error + bool) \<times> world" where
  "saveUserToDB env userInfo w =
     (case userInfo of
        None \<Rightarrow>
          (Inl (saveUserToDB_rethrow
                  (JsError ''TypeError'' ''Cannot read property 'id' of null'')), w)
      | Some u \<Rightarrow>
          (case do_fetch env
                  \<lparr>req_method = ''POST'', req_url = API_BASE_URL @ ''/auth/signup'',
                   req_body = Some (Some (signup_body u))\<rparr> w of
             (Rejects e, w1) \<Rightarrow> (Inl (saveUserToDB_rethrow e), w1)
           | (Resolves r, w1) \<Rightarrow>
               (case resp_json r of
                  None \<Rightarrow> (Inl (saveUserToDB_rethrow syntax_error), w1)
                | Some d \<Rightarrow> if \<not> resp_ok r then (Inr False, w1) else (Inr True, w1))))"

section \<open>SyncService\<close>

subsection \<open>Subscribers\<close>

definition subscribe :: "nat \<Rightarrow> world \<Rightarrow> world" where
  "subscribe cb w = w\<lparr>listeners := listeners w @ [cb]\<rparr>"

text \<open>The function \<open>subscribe\<close> returns: it drops every occurrence of the callback.\<close>

definition unsubscribe :: "nat \<Rightarrow> world \<Rightarrow> world" where
  "unsubscribe cb w = w\<lparr>listeners := filter (\<lambda>l. l \<noteq> cb) (listeners w)\<rparr>"

fun apply_action :: "action \<Rightarrow> world \<Rightarrow> world" where
  "apply_action (Subscribe cb) w = subscribe cb w"
| "apply_action (Unsubscribe cb) w = unsubscribe cb w"

text \<open>
  \<open>listeners.forEach(callback => callback(data))\<close>: the callbacks of the array as it was
  when \<open>forEach\<close> started are called in order (\<open>forEach\<close> does not visit elements pushed
  later, and \<open>unsubscribe\<close> assigns a new array), and the first exception ends the pass.
\<close>

fun deliver :: "env \<Rightarrow> event \<Rightarrow> nat list \<Rightarrow> world \<Rightarrow> (js_error + unit) \<times> world" where
  "deliver env ev [] w = (Inr (), w)"
| "deliver env ev (cb # cbs) w =
     (let r = callback env (clock w) cb ev;
          w1 = fold apply_action (actions r) (tick (w\<lparr>delivered := delivered w @ [(cb, ev)]\<rparr>))
      in case throws r of
           Some e \<Rightarrow> (Inl e, w1)
         | None \<Rightarrow> deliver env ev cbs w1)"

definition notifyListeners :: "env \<Rightarrow> event \<Rightarrow> world \<Rightarrow> (js_error + unit) \<times> world" where
  "notifyListeners env ev w = deliver env ev (listeners w) (w\<lparr>published := published w @ [ev]\<rparr>)"

subsection \<open>The NetInfo listener of the constructor\<close>

definition netInfoListener :: "env \<Rightarrow> bool \<Rightarrow> world \<Rightarrow> (js_error + unit) \<times> world" where
  "netInfoListener env isConnected w =
     (let wasOffline = \<not> isOnline w;
          w1 = w\<lparr>isOnline := isConnected\<rparr>;
          w2 = (if wasOffline \<and> isOnline w1 then w1\<lparr>timers := Suc (timers w1)\<rparr> else w1)
      in notifyListeners env (IsOnline (isOnline w2)) w2)"

subsection \<open>The remote gateway\<close>

text \<open>
  The three \<open>...OnServer\<close> methods share one shape: a response that is not ok throws the
  server's message (or the method's default), and the parsed body is the result.
\<close>

definition gateway ::
  "env \<Rightarrow> request \<Rightarrow> string \<Rightarrow> world \<Rightarrow> (js_error + json_obj) \<times> world" where
  "gateway env req dflt w =
     (case do_fetch env req w of
        (Rejects e, w1) \<Rightarrow> (Inl e, w1)
      | (Resolves r, w1) \<Rightarrow>
          if \<not> resp_ok r
          then (case resp_json r of
                  None \<Rightarrow> (Inl syntax_error, w1)
                | Some err \<Rightarrow>
                    (Inl (JsError ''Error''
                           (case map_of err ''message'' of
                              None \<Rightarrow> dflt
                            | Some m \<Rightarrow> if m = [] then dflt else m)), w1))
          else (case resp_json r of
                  None \<Rightarrow> (Inl syntax_error, w1)
                | Some body \<Rightarrow> (Inr body, w1)))"

definition createPasswordOnServer ::
  "env \<Rightarrow> json_obj option \<Rightarrow> world \<Rightarrow> (js_error + json_obj) \<times> world" where
  "createPasswordOnServer env passwordData w =
     gateway env
       \<lparr>req_method = ''POST'', req_url = API_BASE_URL @ ''/passwords'',
        req_body = Some passwordData\<rparr>
       ''Failed to create password on server'' w"

definition updatePasswordOnServer ::
  "env \<Rightarrow> nat \<Rightarrow> json_obj option \<Rightarrow> world \<Rightarrow> (js_error + json_obj) \<times> world" where
  "updatePasswordOnServer env passwordId passwordData w =
     gateway env
       \<lparr>req_method = ''PUT'', req_url = API_BASE_URL @ ''/passwords/'' @ show_nat passwordId,
        req_body = Some passwordData\<rparr>
       ''Failed to update password on server'' w"

definition deletePasswordOnServer ::
  "env \<Rightarrow> nat \<Rightarrow> world \<Rightarrow> (js_error + json_obj) \<times> world" where
  "deletePasswordOnServer env passwordId w =
     gateway env
       \<lparr>req_method = ''DELETE'', req_url = API_BASE_URL @ ''/passwords/'' @ show_nat passwordId,
        req_body = None\<rparr>
       ''Failed to delete password on server'' w"

subsection \<open>Dispatch of one queue entry\<close>

definition syncUser ::
  "env \<Rightarrow> nat \<Rightarrow> string \<Rightarrow> json_obj option \<Rightarrow> world \<Rightarrow> (js_error + unit) \<times> world" where
  "syncUser env recordId op d w =
     (if op = ''INSERT''
      then (case saveUserToDB env d w of
              (Inl e, w1) \<Rightarrow> (Inl (JsError ''Error'' (''User sync failed: '' @ err_message e)), w1)
            | (Inr ok, w1) \<Rightarrow> (Inr (), if ok then markAsSynced env ''users'' recordId w1 else w1))
      else (Inr (), w))"

definition password_sync_failed :: "js_error \<Rightarrow> js_error" where
  "password_sync_failed e = JsError ''Error'' (''Password sync failed: '' @ err_message e)"

definition syncPassword ::
  "env \<Rightarrow> nat \<Rightarrow> string \<Rightarrow> json_obj option \<Rightarrow> world \<Rightarrow> (js_error + unit) \<times> world" where
  "syncPassword env recordId op d w =
     (case getCurrentUser env w of
        (False, w1) \<Rightarrow>
          (Inl (password_sync_failed (JsError ''Error'' ''No authenticated user found'')), w1)
      | (True, w1) \<Rightarrow>
          if op = ''INSERT''
          then (case createPasswordOnServer env d w1 of
                  (Inl e, w2) \<Rightarrow> (Inl (password_sync_failed e), w2)
                | (Inr _, w2) \<Rightarrow> (Inr (), markAsSynced env ''passwords'' recordId w2))
          else if op = ''UPDATE''
          then (case updatePasswordOnServer env recordId d w1 of
                  (Inl e, w2) \<Rightarrow> (Inl (password_sync_failed e), w2)
                | (Inr _, w2) \<Rightarrow> (Inr (), markAsSynced env ''passwords'' recordId w2))
          else if op = ''DELETE''
          then (case deletePasswordOnServer env recordId w1 of
                  (Inl e, w2) \<Rightarrow> (Inl (password_sync_failed e), w2)
                | (Inr _, w2) \<Rightarrow> (Inr (), w2))
          else (Inr (), w1))"

definition processSyncItem :: "env \<Rightarrow> queue_item \<Rightarrow> world \<Rightarrow> (js_error + unit) \<times> world" where
  "processSyncItem env item w =
     (if table_name item = ''users''
      then syncUser env (record_id item) (operation item) (data item) w
      else if table_name item = ''passwords''
      then syncPassword env (record_id item) (operation item) (data item) w
      else (Inr (), record_call (WarnUnknownTable (table_name item)) w))"

subsection \<open>The drain cycle\<close>

text \<open>
  One turn of the \<open>for\<close> loop of \<open>performSync\<close>, with the counters \<open>(syncedCount,
  failedCount)\<close>: the inner \<open>try\<close> removes the entry when \<open>processSyncItem\<close> returns, the
  inner \<open>catch\<close> counts the failure and increments \<open>attempts\<close> with a statement of its
  own, whose failure leaves the loop.
\<close>

definition syncItem ::
  "env \<Rightarrow> queue_item \<Rightarrow> nat \<times> nat \<Rightarrow> world \<Rightarrow> (js_error + nat \<times> nat) \<times> world" where
  "syncItem env item counts w =
     (case processSyncItem env item w of
        (Inr _, w1) \<Rightarrow> (Inr (Suc (fst counts), snd counts), removeSyncQueueItem env (q_id item) w1)
      | (Inl err, w1) \<Rightarrow>
          (case executeSql env (increment_attempts (q_id item))
                  (record_call (IncrementAttempts (q_id item))
                     (record_call (ErrorFailedItem (q_id item)) w1)) of
             (Inl e, w2) \<Rightarrow> (Inl e, w2)
           | (Inr _, w2) \<Rightarrow> (Inr (fst counts, Suc (snd counts)), w2)))"

fun processQueue ::
  "env \<Rightarrow> queue_item list \<Rightarrow> nat \<times> nat \<Rightarrow> world \<Rightarrow> (js_error + nat \<times> nat) \<times> world" where
  "processQueue env [] counts w = (Inr counts, w)"
| "processQueue env (item # rest) counts w =
     (case syncItem env item counts w of
        (Inl e, w1) \<Rightarrow> (Inl e, w1)
      | (Inr counts', w1) \<Rightarrow> processQueue env rest counts' w1)"

record sync_result =
  success :: bool
  message :: string
  syncedCount :: "nat option"
  failedCount :: "nat option"

definition busy_result :: sync_result where
  "busy_result =
     \<lparr>success = False, message = ''Sync already in progress'',
      syncedCount = None, failedCount = None\<rparr>"

definition offline_result :: sync_result where
  "offline_result =
     \<lparr>success = False, message = ''Device is offline'', syncedCount = None, failedCount = None\<rparr>"

text \<open>The \<open>try\<close> block of \<open>performSync\<close>: snapshot, loop, completion event, result.\<close>

definition syncBody :: "env \<Rightarrow> world \<Rightarrow> (js_error + nat \<times> nat) \<times> world" where
  "syncBody env w =
     (case getSyncQueue env w of
        (syncQueue, w1) \<Rightarrow>
          (case processQueue env syncQueue (0, 0) w1 of
             (Inl e, w2) \<Rightarrow> (Inl e, w2)
           | (Inr (sc, fc), w2) \<Rightarrow>
               (case notifyListeners env (SyncCompleted sc fc) w2 of
                  (Inl e, w3) \<Rightarrow> (Inl e, w3)
                | (Inr _, w3) \<Rightarrow> (Inr (sc, fc), w3))))"

definition completed_result :: "nat \<Rightarrow> nat \<Rightarrow> sync_result" where
  "completed_result sc fc =
     \<lparr>success = True, message = ''Synced '' @ show_nat sc @ '' items'',
      syncedCount = Some sc, failedCount = Some fc\<rparr>"

definition failed_result :: "js_error \<Rightarrow> sync_result" where
  "failed_result e =
     \<lparr>success = False, message = err_message e, syncedCount = None, failedCount = None\<rparr>"

text \<open>The \<open>try\<close> block with its \<open>catch\<close>; an exception of the \<open>catch\<close> block itself escapes.\<close>

definition syncTryCatch :: "env \<Rightarrow> world \<Rightarrow> (js_error + sync_result) \<times> world" where
  "syncTryCatch env w =
     (case syncBody env w of
        (Inr (sc, fc), w1) \<Rightarrow> (Inr (completed_result sc fc), w1)
      | (Inl error, w1) \<Rightarrow>
          (case notifyListeners env (SyncFailed (err_message error)) w1 of
             (Inl e, w2) \<Rightarrow> (Inl e, w2)
           | (Inr _, w2) \<Rightarrow> (Inr (failed_result error), w2)))"

text \<open>
  \<open>performSync(force)\<close>. The flag is set and the start event published before the
  \<open>try\<close>; the \<open>finally\<close> block clears the flag and publishes the end event, and an
  exception thrown there replaces the outcome of the \<open>try\<close> and \<open>catch\<close> blocks.
\<close>

definition performSync :: "env \<Rightarrow> bool \<Rightarrow> world \<Rightarrow> (js_error + sync_result) \<times> world" where
  "performSync env force w =
     (if syncInProgress w \<and> \<not> force then (Inr busy_result, w)
      else if \<not> isOnline w then (Inr offline_result, w)
      else
        (case notifyListeners env (SyncInProgress True) (w\<lparr>syncInProgress := True\<rparr>) of
           (Inl e, w1) \<Rightarrow> (Inl e, w1)
         | (Inr _, w1) \<Rightarrow>
             (case syncTryCatch env w1 of
                (outcome, w2) \<Rightarrow>
                  (case notifyListeners env (SyncInProgress False) (w2\<lparr>syncInProgress := False\<rparr>) of
                     (Inl e, w3) \<Rightarrow> (Inl e, w3)
                   | (Inr _, w3) \<Rightarrow> (outcome, w3)))))"

section \<open>Observations used in the statements\<close>

text \<open>The calls made between two states: what the later state logged beyond the earlier.\<close>

definition new_calls :: "world \<Rightarrow> world \<Rightarrow> call list" where
  "new_calls w w' = drop (length (calls w)) (calls w')"

text \<open>
  \<open>aged r r'\<close>: the queue row \<open>r'\<close> is the row \<open>r\<close> with the same or a larger \<open>attempts\<close>
  and every other column unchanged.
\<close>

definition aged :: "queue_item \<Rightarrow> queue_item \<Rightarrow> bool" where
  "aged r r' \<longleftrightarrow> r' = r\<lparr>attempts := attempts r'\<rparr> \<and> attempts r \<le> attempts r'"

section \<open>Scenarios\<close>

text \<open>
  Concrete environments and states on which the theorems below are instantiated. In
  \<open>quiet_env\<close> nothing fails: every statement succeeds, the server answers ok with an
  empty JSON object, a user is signed in and no subscriber throws.
\<close>

definition quiet_env :: env where
  "quiet_env =
     \<lparr>sql_error = (\<lambda>n. None), now = (\<lambda>n. n),
      fetch = (\<lambda>n req. Resolves \<lparr>resp_ok = True, resp_json = Some []\<rparr>),
      currentUser = (\<lambda>n. True),
      callback = (\<lambda>n cb ev. \<lparr>actions = [], throws = None\<rparr>)\<rparr>"

definition idle_world :: world where
  "idle_world =
     \<lparr>users = [], passwords = [], sync_queue = [], users_seq = 0, passwords_seq = 0,
      sync_queue_seq = 0, isOnline = True, syncInProgress = False, listeners = [],
      clock = 0, calls = [], published = [], delivered = [], timers = 0\<rparr>"

definition boom :: js_error where
  "boom = JsError ''Error'' ''subscriber failed''"

text \<open>Subscriber 1 throws on every event.\<close>

definition throwing_env :: env where
  "throwing_env =
     quiet_env\<lparr>callback :=
       (\<lambda>n cb ev. \<lparr>actions = [], throws = (if cb = 1 then Some boom else None)\<rparr>)\<rparr>"

text \<open>Subscriber 1 unsubscribes subscriber 2 while it handles an event.\<close>

definition leaving_env :: env where
  "leaving_env =
     quiet_env\<lparr>callback :=
       (\<lambda>n cb ev. \<lparr>actions = (if cb = 1 then [Unsubscribe 2] else []), throws = None\<rparr>)\<rparr>"

definition pd1 :: password_data where
  "pd1 =
     \<lparr>pd_title = ''mail'', pd_username = ''ann'', pd_password = ''pw'',
      pd_website = ''example.org'', pd_notes = []\<rparr>"

text \<open>The network is down: every \<open>fetch\<close> rejects.\<close>

definition unreachable_env :: env where
  "unreachable_env =
     quiet_env\<lparr>fetch := (\<lambda>n req. Rejects (JsError ''TypeError'' ''Network request failed''))\<rparr>"

definition password_entry :: queue_item where
  "password_entry =
     \<lparr>q_id = 1, table_name = ''passwords'', record_id = 1, operation = ''INSERT'',
      data = Some (password_json pd1), created_at = 0, attempts = 0\<rparr>"

definition one_entry_world :: world where
  "one_entry_world = idle_world\<lparr>sync_queue := [password_entry], sync_queue_seq := 1\<rparr>"

definition disk_error :: js_error where
  "disk_error = JsError ''Error'' ''disk I/O error''"

text \<open>The second SQL statement fails (in a write: the INSERT into the queue).\<close>

definition queue_fault_env :: env where
  "queue_fault_env = quiet_env\<lparr>sql_error := (\<lambda>n. if n = 1 then Some disk_error else None)\<rparr>"

text \<open>The first SQL statement fails (in a write: the statement on the entity table).\<close>

definition entity_fault_env :: env where
  "entity_fault_env = quiet_env\<lparr>sql_error := (\<lambda>n. if n = 0 then Some disk_error else None)\<rparr>"

definition ui1 :: user_info where
  "ui1 =
     \<lparr>ui_id = ''g-1'', ui_email = ''ann@example.org'', ui_name = ''Ann'', ui_picture = [],
      ui_verified_email = True\<rparr>"

text \<open>Every subscriber throws on the event that announces the start of a cycle.\<close>

definition start_throwing_env :: env where
  "start_throwing_env =
     quiet_env\<lparr>callback :=
       (\<lambda>n cb ev. \<lparr>actions = [], throws = (if ev = SyncInProgress True then Some boom else None)\<rparr>)\<rparr>"

text \<open>The server answers every request with a response that is not ok.\<close>

definition rejecting_env :: env where
  "rejecting_env =
     quiet_env\<lparr>fetch :=
       (\<lambda>n req. Resolves \<lparr>resp_ok = False, resp_json = Some [(''error'', ''User already exists'')]\<rparr>)\<rparr>"

definition user_entry :: queue_item where
  "user_entry =
     \<lparr>q_id = 1, table_name = ''users'', record_id = 1, operation = ''INSERT'',
      data = Some [(''id'', ''g-1''), (''email'', ''ann@example.org''), (''name'', ''Ann'')],
      created_at = 0, attempts = 0\<rparr>"

definition user_update_entry :: queue_item where
  "user_update_entry =
     \<lparr>q_id = 2, table_name = ''users'', record_id = 1, operation = ''UPDATE'',
      data = Some [(''id'', ''g-1''), (''email'', ''ann@example.org''), (''name'', ''Anna'')],
      created_at = 1, attempts = 0\<rparr>"

definition user_entry_world :: world where
  "user_entry_world =
     idle_world\<lparr>sync_queue := [user_entry, user_update_entry], sync_queue_seq := 2\<rparr>"

definition widget_entry :: queue_item where
  "widget_entry =
     \<lparr>q_id = 1, table_name = ''widgets'', record_id = 1, operation = ''INSERT'',
      data = None, created_at = 0, attempts = 0\<rparr>"

definition widget_world :: world where
  "widget_world = idle_world\<lparr>sync_queue := [widget_entry], sync_queue_seq := 1\<rparr>"

text \<open>
  A create followed by an update of the same record, against a server that accepts
  the POST and whose PUT fails in transport.
\<close>

definition update_entry :: queue_item where
  "update_entry =
     \<lparr>q_id = 2, table_name = ''passwords'', record_id = 1, operation = ''UPDATE'',
      data = Some (password_json pd1), created_at = 1, attempts = 0\<rparr>"

definition two_entry_world :: world where
  "two_entry_world =
     idle_world\<lparr>sync_queue := [password_entry, update_entry], sync_queue_seq := 2\<rparr>"

definition put_failing_env :: env where
  "put_failing_env =
     quiet_env\<lparr>fetch :=
       (\<lambda>n req. if req_method req = ''PUT''
                 then Rejects (JsError ''TypeError'' ''Network request failed'')
                 else Resolves \<lparr>resp_ok = True, resp_json = Some []\<rparr>)\<rparr>"

text \<open>The network is down and the fourth SQL statement fails.\<close>

definition update_fault_env :: env where
  "update_fault_env =
     unreachable_env\<lparr>sql_error := (\<lambda>n. if n = 3 then Some disk_error else None)\<rparr>"

section \<open>Unfolding sets and frame lemmas\<close>

text \<open>The definitions of the local store the sync engine runs on, and the engine's own.\<close>

lemmas store_defs =
  Let_def executeSql_def fresh_id_def select_queue_def delete_queue_def increment_attempts_def
  set_synced_def getSyncQueue_def removeSyncQueueItem_def markAsSynced_def

lemmas engine_defs =
  do_fetch_def getCurrentUser_def syntax_error_def signup_body_def saveUserToDB_rethrow_def
  saveUserToDB_def subscribe_def unsubscribe_def notifyListeners_def
  gateway_def createPasswordOnServer_def updatePasswordOnServer_def deletePasswordOnServer_def
  syncUser_def password_sync_failed_def syncPassword_def processSyncItem_def syncItem_def
  busy_result_def offline_result_def syncBody_def completed_result_def failed_result_def
  syncTryCatch_def performSync_def API_BASE_URL_def

text \<open>The definitions of the three password writes.\<close>

lemmas write_defs =
  Let_def executeSql_def fresh_id_def insert_password_def update_password_def
  soft_delete_password_def insert_queue_def addToSyncQueue_def savePassword_def
  updatePassword_def deletePassword_def password_json_def

declare tick_def [simp] record_call_def [simp]

lemma apply_action_frame [simp]:
  "clock (apply_action a w) = clock w"
  "delivered (apply_action a w) = delivered w"
  "published (apply_action a w) = published w"
  "calls (apply_action a w) = calls w"
  "sync_queue (apply_action a w) = sync_queue w"
  "syncInProgress (apply_action a w) = syncInProgress w"
  "isOnline (apply_action a w) = isOnline w"
  "timers (apply_action a w) = timers w"
  "users (apply_action a w) = users w"
  "passwords (apply_action a w) = passwords w"
  by (cases a; simp add: subscribe_def unsubscribe_def)+

lemma fold_apply_action_frame [simp]:
  "clock (fold apply_action acts w) = clock w"
  "delivered (fold apply_action acts w) = delivered w"
  "published (fold apply_action acts w) = published w"
  "calls (fold apply_action acts w) = calls w"
  "sync_queue (fold apply_action acts w) = sync_queue w"
  "syncInProgress (fold apply_action acts w) = syncInProgress w"
  "isOnline (fold apply_action acts w) = isOnline w"
  "timers (fold apply_action acts w) = timers w"
  "users (fold apply_action acts w) = users w"
  "passwords (fold apply_action acts w) = passwords w"
  by (induction acts arbitrary: w; simp)+

lemma deliver_frame [simp]:
  "published (snd (deliver env ev cbs w)) = published w"
  "calls (snd (deliver env ev cbs w)) = calls w"
  "sync_queue (snd (deliver env ev cbs w)) = sync_queue w"
  "syncInProgress (snd (deliver env ev cbs w)) = syncInProgress w"
  "isOnline (snd (deliver env ev cbs w)) = isOnline w"
  "timers (snd (deliver env ev cbs w)) = timers w"
  "users (snd (deliver env ev cbs w)) = users w"
  "passwords (snd (deliver env ev cbs w)) = passwords w"
  by (induction cbs arbitrary: w; simp add: Let_def split: option.splits)+

lemma notifyListeners_frame [simp]:
  "published (snd (notifyListeners env ev w)) = published w @ [ev]"
  "calls (snd (notifyListeners env ev w)) = calls w"
  "sync_queue (snd (notifyListeners env ev w)) = sync_queue w"
  "syncInProgress (snd (notifyListeners env ev w)) = syncInProgress w"
  "isOnline (snd (notifyListeners env ev w)) = isOnline w"
  "timers (snd (notifyListeners env ev w)) = timers w"
  "users (snd (notifyListeners env ev w)) = users w"
  "passwords (snd (notifyListeners env ev w)) = passwords w"
  by (simp_all add: notifyListeners_def)

section \<open>Delivery of an event to the subscribers\<close>

text \<open>
  The callback at position \<open>i\<close> of the pass runs at clock \<open>clock w + i\<close>, whatever the
  earlier callbacks subscribed or unsubscribed. When none of them throws, every
  subscriber of the array the pass started with receives the event, in order.
\<close>

lemma deliver_all:
  "\<forall>i<length cbs. throws (callback env (clock w + i) (cbs ! i) ev) = None \<Longrightarrow>
   fst (deliver env ev cbs w) = Inr () \<and>
   delivered (snd (deliver env ev cbs w)) = delivered w @ map (\<lambda>cb. (cb, ev)) cbs"
proof (induction cbs arbitrary: w)
  case Nil
  then show ?case by simp
next
  case (Cons cb cbs)
  let ?r = "callback env (clock w) cb ev"
  let ?w1 = "fold apply_action (actions ?r) (tick (w\<lparr>delivered := delivered w @ [(cb, ev)]\<rparr>))"
  from Cons.prems have here: "throws ?r = None" by force
  have later: "\<forall>i<length cbs. throws (callback env (clock ?w1 + i) (cbs ! i) ev) = None"
  proof (intro allI impI)
    fix i assume "i < length cbs"
    with Cons.prems have "throws (callback env (clock w + Suc i) ((cb # cbs) ! Suc i) ev) = None"
      by (metis Suc_less_eq length_Cons)
    then show "throws (callback env (clock ?w1 + i) (cbs ! i) ev) = None"
      by simp
  qed
  from Cons.IH [OF later] here show ?case
    by (simp add: Let_def)
qed

text \<open>The first callback that throws ends the pass; the later ones are not called.\<close>

lemma deliver_until_throw:
  "k < length cbs \<Longrightarrow>
   \<forall>i<k. throws (callback env (clock w + i) (cbs ! i) ev) = None \<Longrightarrow>
   throws (callback env (clock w + k) (cbs ! k) ev) = Some e \<Longrightarrow>
   fst (deliver env ev cbs w) = Inl e \<and>
   delivered (snd (deliver env ev cbs w)) = delivered w @ map (\<lambda>cb. (cb, ev)) (take (Suc k) cbs)"
proof (induction cbs arbitrary: w k)
  case Nil
  then show ?case by simp
next
  case (Cons cb cbs)
  let ?r = "callback env (clock w) cb ev"
  let ?w1 = "fold apply_action (actions ?r) (tick (w\<lparr>delivered := delivered w @ [(cb, ev)]\<rparr>))"
  show ?case
  proof (cases k)
    case 0
    with Cons.prems show ?thesis by (simp add: Let_def)
  next
    case (Suc j)
    from Cons.prems Suc have here: "throws ?r = None" by force
    from Cons.prems Suc have j: "j < length cbs" by simp
    have before: "\<forall>i<j. throws (callback env (clock ?w1 + i) (cbs ! i) ev) = None"
    proof (intro allI impI)
      fix i assume "i < j"
      with Cons.prems(2) Suc
      have "throws (callback env (clock w + Suc i) ((cb # cbs) ! Suc i) ev) = None"
        by (metis Suc_less_eq)
      then show "throws (callback env (clock ?w1 + i) (cbs ! i) ev) = None"
        by simp
    qed
    from Cons.prems(3) Suc have at: "throws (callback env (clock ?w1 + j) (cbs ! j) ev) = Some e"
      by simp
    from Cons.IH [OF j before at] here Suc show ?thesis
      by (simp add: Let_def)
  qed
qed

text \<open>Only the subscriptions the callbacks change themselves alter the subscriber array.\<close>

lemma deliver_listeners:
  "\<forall>i<length cbs. actions (callback env (clock w + i) (cbs ! i) ev) = [] \<Longrightarrow>
   listeners (snd (deliver env ev cbs w)) = listeners w"
proof (induction cbs arbitrary: w)
  case Nil
  then show ?case by simp
next
  case (Cons cb cbs)
  let ?r = "callback env (clock w) cb ev"
  let ?w1 = "tick (w\<lparr>delivered := delivered w @ [(cb, ev)]\<rparr>)"
  from Cons.prems have here: "actions ?r = []" by force
  have later: "\<forall>i<length cbs. actions (callback env (clock ?w1 + i) (cbs ! i) ev) = []"
  proof (intro allI impI)
    fix i assume "i < length cbs"
    with Cons.prems have "actions (callback env (clock w + Suc i) ((cb # cbs) ! Suc i) ev) = []"
      by (metis Suc_less_eq length_Cons)
    then show "actions (callback env (clock ?w1 + i) (cbs ! i) ev) = []"
      by simp
  qed
  from Cons.IH [OF later] here show ?case
    by (simp add: Let_def split: option.splits)
qed

lemma notifyListeners_all:
  "\<forall>i<length (listeners w). throws (callback env (clock w + i) (listeners w ! i) ev) = None \<Longrightarrow>
   fst (notifyListeners env ev w) = Inr () \<and>
   delivered (snd (notifyListeners env ev w)) = delivered w @ map (\<lambda>cb. (cb, ev)) (listeners w)"
  using deliver_all [of "listeners w" env "w\<lparr>published := published w @ [ev]\<rparr>" ev]
  by (simp add: notifyListeners_def)

text \<open>
  Claim C9, as the code has it. \<open>notifyListeners\<close> calls the subscribers synchronously in
  subscription order, over the array as it was when the pass started: a callback that
  unsubscribes (or subscribes) during the pass does not change who is called in that
  pass. There is no \<open>try\<close> around the callbacks: the first subscriber that throws ends
  the pass, the exception reaches the publisher, and the subscribers after it do not
  receive the event. A throw by itself leaves the subscriber array as it was.
\<close>

theorem notifyListeners_delivery:
  "((\<forall>i<length (listeners w). throws (callback env (clock w + i) (listeners w ! i) ev) = None) \<longrightarrow>
      fst (notifyListeners env ev w) = Inr () \<and>
      delivered (snd (notifyListeners env ev w)) = delivered w @ map (\<lambda>cb. (cb, ev)) (listeners w)) \<and>
   (k < length (listeners w) \<and>
    (\<forall>i<k. throws (callback env (clock w + i) (listeners w ! i) ev) = None) \<and>
    throws (callback env (clock w + k) (listeners w ! k) ev) = Some e \<longrightarrow>
      fst (notifyListeners env ev w) = Inl e \<and>
      delivered (snd (notifyListeners env ev w))
        = delivered w @ map (\<lambda>cb. (cb, ev)) (take (Suc k) (listeners w))) \<and>
   ((\<forall>i<length (listeners w). actions (callback env (clock w + i) (listeners w ! i) ev) = []) \<longrightarrow>
      listeners (snd (notifyListeners env ev w)) = listeners w)"
  using deliver_all [of "listeners w" env "w\<lparr>published := published w @ [ev]\<rparr>" ev]
    deliver_until_throw [of k "listeners w" env "w\<lparr>published := published w @ [ev]\<rparr>" ev e]
    deliver_listeners [of "listeners w" env "w\<lparr>published := published w @ [ev]\<rparr>" ev]
  by (simp add: notifyListeners_def)

theorem notifyListeners_delivery_witness:
  "fst (notifyListeners leaving_env (IsOnline True) (subscribe 2 (subscribe 1 idle_world))) = Inr () \<and>
   delivered (snd (notifyListeners leaving_env (IsOnline True) (subscribe 2 (subscribe 1 idle_world))))
     = [(1, IsOnline True), (2, IsOnline True)] \<and>
   listeners (snd (notifyListeners leaving_env (IsOnline True) (subscribe 2 (subscribe 1 idle_world))))
     = [1] \<and>
   fst (notifyListeners throwing_env (IsOnline True) (subscribe 2 (subscribe 1 idle_world))) = Inl boom \<and>
   delivered (snd (notifyListeners throwing_env (IsOnline True) (subscribe 2 (subscribe 1 idle_world))))
     = [(1, IsOnline True)] \<and>
   listeners (snd (notifyListeners throwing_env (IsOnline True) (subscribe 2 (subscribe 1 idle_world))))
     = [1, 2]"
  using notifyListeners_delivery
          [of "subscribe 2 (subscribe 1 idle_world)" leaving_env "IsOnline True" 0 boom]
        notifyListeners_delivery
          [of "subscribe 2 (subscribe 1 idle_world)" throwing_env "IsOnline True" 0 boom]
  by (simp add: notifyListeners_def subscribe_def unsubscribe_def quiet_env_def idle_world_def leaving_env_def throwing_env_def boom_def)

theorem throwing_subscriber_counterexample:
  "listeners (subscribe 2 (subscribe 1 idle_world)) = [1, 2] \<and>
   fst (notifyListeners throwing_env (IsOnline True) (subscribe 2 (subscribe 1 idle_world))) = Inl boom \<and>
   (2, IsOnline True) \<notin>
     set (delivered (snd (notifyListeners throwing_env (IsOnline True)
                            (subscribe 2 (subscribe 1 idle_world)))))"
  by (simp add: notifyListeners_def subscribe_def unsubscribe_def quiet_env_def idle_world_def leaving_env_def throwing_env_def boom_def)

section \<open>The entry guards of performSync\<close>

text \<open>
  Claim C6. The guards of \<open>performSync\<close> are tested in order. A call made while a cycle
  is in progress without \<open>force\<close> returns the busy result. A call that is not turned
  away as busy and is made while the connectivity state is false returns the offline
  result. In both cases the call returns at once and the whole state is returned
  unchanged: no gateway call, no change to the queue, the record flags or the sync state.
\<close>

theorem performSync_guards:
  "(syncInProgress w \<and> \<not> force \<longrightarrow> performSync env force w = (Inr busy_result, w)) \<and>
   (\<not> (syncInProgress w \<and> \<not> force) \<and> \<not> isOnline w \<longrightarrow>
      performSync env force w = (Inr offline_result, w))"
  by (simp add: performSync_def)

theorem performSync_guards_witness:
  "performSync quiet_env False (idle_world\<lparr>syncInProgress := True\<rparr>)
     = (Inr busy_result, idle_world\<lparr>syncInProgress := True\<rparr>) \<and>
   performSync quiet_env True (idle_world\<lparr>syncInProgress := True, isOnline := False\<rparr>)
     = (Inr offline_result, idle_world\<lparr>syncInProgress := True, isOnline := False\<rparr>)"
  using performSync_guards [of "idle_world\<lparr>syncInProgress := True\<rparr>" False quiet_env]
    performSync_guards [of "idle_world\<lparr>syncInProgress := True, isOnline := False\<rparr>" True quiet_env]
  by (simp add: idle_world_def)

section \<open>The connectivity listener\<close>

text \<open>
  Claim C8, as the code has it. Every call of the NetInfo listener stores the reported
  state and publishes exactly one \<open>{isOnline}\<close> event, whether or not the state changed;
  when no subscriber throws, each subscriber receives it once. Only the scheduling of
  the automatic sync is edge-triggered: a timer is set exactly on a change from offline
  to online.
\<close>

theorem netInfoListener_emits:
  "published (snd (netInfoListener env c w)) = published w @ [IsOnline c] \<and>
   isOnline (snd (netInfoListener env c w)) = c \<and>
   timers (snd (netInfoListener env c w)) = (if \<not> isOnline w \<and> c then Suc (timers w) else timers w) \<and>
   ((\<forall>i<length (listeners w). throws (callback env (clock w + i) (listeners w ! i) (IsOnline c)) = None) \<longrightarrow>
      fst (netInfoListener env c w) = Inr () \<and>
      delivered (snd (netInfoListener env c w)) = delivered w @ map (\<lambda>cb. (cb, IsOnline c)) (listeners w))"
proof (cases "\<not> isOnline w \<and> c")
  case True
  then have eq: "netInfoListener env c w
      = notifyListeners env (IsOnline c) (w\<lparr>isOnline := c, timers := Suc (timers w)\<rparr>)"
    by (simp add: netInfoListener_def Let_def)
  show ?thesis
    using True notifyListeners_all [of "w\<lparr>isOnline := c, timers := Suc (timers w)\<rparr>" env "IsOnline c"]
    unfolding eq by simp
next
  case False
  then have eq: "netInfoListener env c w = notifyListeners env (IsOnline c) (w\<lparr>isOnline := c\<rparr>)"
    by (auto simp: netInfoListener_def Let_def)
  show ?thesis
    using False notifyListeners_all [of "w\<lparr>isOnline := c\<rparr>" env "IsOnline c"]
    unfolding eq by simp
qed

theorem netInfoListener_emits_witness:
  "published (snd (netInfoListener quiet_env True (subscribe 7 idle_world))) = [IsOnline True] \<and>
   timers (snd (netInfoListener quiet_env True (subscribe 7 idle_world))) = 0 \<and>
   timers (snd (netInfoListener quiet_env True (subscribe 7 (idle_world\<lparr>isOnline := False\<rparr>)))) = 1 \<and>
   fst (netInfoListener quiet_env True (subscribe 7 idle_world)) = Inr () \<and>
   delivered (snd (netInfoListener quiet_env True (subscribe 7 idle_world))) = [(7, IsOnline True)]"
  using netInfoListener_emits [of quiet_env True "subscribe 7 idle_world"]
    netInfoListener_emits [of quiet_env True "subscribe 7 (idle_world\<lparr>isOnline := False\<rparr>)"]
  by (simp add: netInfoListener_def notifyListeners_def subscribe_def Let_def quiet_env_def idle_world_def)

theorem repeated_online_report_counterexample:
  "isOnline (snd (netInfoListener quiet_env True (subscribe 7 (idle_world\<lparr>isOnline := False\<rparr>)))) \<and>
   delivered (snd (netInfoListener quiet_env True
                (snd (netInfoListener quiet_env True (subscribe 7 (idle_world\<lparr>isOnline := False\<rparr>))))))
     = [(7, IsOnline True), (7, IsOnline True)]"
  by (simp add: netInfoListener_def notifyListeners_def subscribe_def Let_def quiet_env_def idle_world_def)

section \<open>The result of performSync\<close>

text \<open>
  Claim C10. Whenever \<open>performSync\<close> returns a result: if the guards were passed and the
  \<open>try\<close> block ran to completion with counters \<open>(sc, fc)\<close>, the result is
  \<open>{success: true, message: 'Synced sc items', syncedCount: sc, failedCount: fc}\<close>,
  whatever \<open>fc\<close> is; and a result with \<open>success = false\<close> is the busy result, the offline
  result, or the result the \<open>catch\<close> block builds from an exception of the \<open>try\<close> block.
\<close>

theorem performSync_result:
  assumes "performSync env force w = (Inr r, w')"
  shows "(\<forall>sc fc. \<not> (syncInProgress w \<and> \<not> force) \<and> isOnline w \<and>
            fst (syncBody env (snd (notifyListeners env (SyncInProgress True) (w\<lparr>syncInProgress := True\<rparr>))))
              = Inr (sc, fc) \<longrightarrow>
            r = \<lparr>success = True, message = ''Synced '' @ show_nat sc @ '' items'',
                 syncedCount = Some sc, failedCount = Some fc\<rparr>) \<and>
         (\<not> success r \<longrightarrow>
            (syncInProgress w \<and> \<not> force \<and> r = busy_result) \<or>
            (\<not> (syncInProgress w \<and> \<not> force) \<and> \<not> isOnline w \<and> r = offline_result) \<or>
            (\<not> (syncInProgress w \<and> \<not> force) \<and> isOnline w \<and>
             (\<exists>e. fst (syncBody env (snd (notifyListeners env (SyncInProgress True) (w\<lparr>syncInProgress := True\<rparr>))))
                    = Inl e \<and>
                  r = \<lparr>success = False, message = err_message e, syncedCount = None, failedCount = None\<rparr>)))"
  using assms
  by (auto simp: performSync_def syncTryCatch_def completed_result_def failed_result_def
        split: if_splits prod.splits sum.splits)

theorem performSync_result_witness:
  "(\<exists>r w'. performSync unreachable_env False one_entry_world = (Inr r, w') \<and>
      success r \<and> message r = ''Synced 0 items'' \<and> failedCount r = Some 1) \<and>
   (\<exists>r w'. performSync quiet_env False (idle_world\<lparr>syncInProgress := True\<rparr>) = (Inr r, w') \<and>
      \<not> success r \<and> r = busy_result)"
proof -
  let ?w1 = "snd (notifyListeners unreachable_env (SyncInProgress True)
                    (one_entry_world\<lparr>syncInProgress := True\<rparr>))"
  obtain r w' where run: "performSync unreachable_env False one_entry_world = (Inr r, w')"
    by (simp add: store_defs engine_defs quiet_env_def idle_world_def
          unreachable_env_def password_entry_def one_entry_world_def pd1_def password_json_def)
  have guards: "\<not> (syncInProgress one_entry_world \<and> \<not> False) \<and> isOnline one_entry_world"
    by (simp add: one_entry_world_def idle_world_def)
  have body: "fst (syncBody unreachable_env ?w1) = Inr (0, 1)"
    by (simp add: store_defs engine_defs quiet_env_def idle_world_def
          unreachable_env_def password_entry_def one_entry_world_def pd1_def password_json_def)
  from performSync_result [OF run] guards body
  have "r = \<lparr>success = True, message = ''Synced '' @ show_nat 0 @ '' items'',
              syncedCount = Some 0, failedCount = Some 1\<rparr>"
    by blast
  then have first: "success r \<and> message r = ''Synced 0 items'' \<and> failedCount r = Some 1"
    by (simp add: show_nat.simps)
  obtain r2 w2 where run2:
    "performSync quiet_env False (idle_world\<lparr>syncInProgress := True\<rparr>) = (Inr r2, w2)"
    by (simp add: performSync_def)
  have nosucc: "\<not> success r2"
    using run2 by (auto simp: performSync_def busy_result_def idle_world_def)
  from performSync_result [OF run2] nosucc
  have "r2 = busy_result"
    by (auto simp: idle_world_def)
  with run run2 first nosucc show ?thesis by blast
qed

text \<open>
  A result is indeed produced: when the \<open>try\<close> block completes and no subscriber throws
  on the end event, \<open>performSync\<close> returns the success result.
\<close>

lemma performSync_returns:
  assumes "\<not> (syncInProgress w \<and> \<not> force)" and "isOnline w"
    and "notifyListeners env (SyncInProgress True) (w\<lparr>syncInProgress := True\<rparr>) = (Inr (), ws)"
    and "syncBody env ws = (Inr (sc, fc), w2)"
    and "notifyListeners env (SyncInProgress False) (w2\<lparr>syncInProgress := False\<rparr>) = (Inr (), w3)"
  shows "performSync env force w = (Inr (completed_result sc fc), w3)"
  using assms by (auto simp: performSync_def syncTryCatch_def)

section \<open>Local writes and the mutation queue\<close>

text \<open>
  Claim C3, as the code has it. No write of DatabaseService runs in a transaction: the
  entity statement and the queue INSERT are two separate statements, and
  \<open>addToSyncQueue\<close> catches the failure of its INSERT. If the entity statement fails,
  the operation throws that error and nothing is written, so no queue entry is appended.
  If the entity statement succeeds and the queue INSERT fails, the operation still
  returns normally, the entity write stays visible and the queue is unchanged.
\<close>

theorem no_transaction:
  "(sql_error env (clock w) = Some e \<longrightarrow>
      savePassword env userId pd w = (Inl e, w\<lparr>clock := Suc (clock w)\<rparr>) \<and>
      updatePassword env i pd w = (Inl e, w\<lparr>clock := Suc (clock w)\<rparr>) \<and>
      deletePassword env i w = (Inl e, w\<lparr>clock := Suc (clock w)\<rparr>)) \<and>
   (sql_error env (clock w) = None \<and> sql_error env (Suc (clock w)) = Some e \<longrightarrow>
      fst (savePassword env userId pd w) = Inr (fst (insert_password userId pd (now env (clock w)) w)) \<and>
      passwords (snd (savePassword env userId pd w))
        = passwords (snd (insert_password userId pd (now env (clock w)) w)) \<and>
      sync_queue (snd (savePassword env userId pd w)) = sync_queue w \<and>
      fst (updatePassword env i pd w) = Inr () \<and>
      passwords (snd (updatePassword env i pd w))
        = passwords (snd (update_password i pd (now env (clock w)) w)) \<and>
      sync_queue (snd (updatePassword env i pd w)) = sync_queue w \<and>
      fst (deletePassword env i w) = Inr () \<and>
      passwords (snd (deletePassword env i w))
        = passwords (snd (soft_delete_password i (now env (clock w)) w)) \<and>
      sync_queue (snd (deletePassword env i w)) = sync_queue w)"
  by (simp add: savePassword_def updatePassword_def deletePassword_def addToSyncQueue_def
        executeSql_def insert_password_def update_password_def soft_delete_password_def Let_def)

theorem no_transaction_witness:
  "savePassword entity_fault_env 1 pd1 idle_world = (Inl disk_error, idle_world\<lparr>clock := 1\<rparr>) \<and>
   fst (savePassword queue_fault_env 1 pd1 idle_world) = Inr 1 \<and>
   map p_id (passwords (snd (savePassword queue_fault_env 1 pd1 idle_world))) = [1] \<and>
   sync_queue (snd (savePassword queue_fault_env 1 pd1 idle_world)) = []"
  using no_transaction [of entity_fault_env idle_world disk_error 1 pd1 1]
    no_transaction [of queue_fault_env idle_world disk_error 1 pd1 1]
  by (simp add: quiet_env_def idle_world_def queue_fault_env_def entity_fault_env_def disk_error_def pd1_def
        insert_password_def fresh_id_def Let_def)

theorem queue_append_failure_counterexample:
  "sql_error queue_fault_env 1 = Some disk_error \<and>
   fst (savePassword queue_fault_env 1 pd1 idle_world) = Inr 1 \<and>
   map p_title (passwords (snd (savePassword queue_fault_env 1 pd1 idle_world))) = [''mail''] \<and>
   sync_queue (snd (savePassword queue_fault_env 1 pd1 idle_world)) = []"
  by (simp add: quiet_env_def idle_world_def queue_fault_env_def entity_fault_env_def disk_error_def pd1_def write_defs)

text \<open>
  Claim C4, as the code has it. A call of \<open>savePassword\<close>, \<open>updatePassword\<close> or
  \<open>deletePassword\<close> that returns normally has appended, before it returns, exactly one
  queue entry for table \<open>passwords\<close> with the record's id and the operation INSERT,
  UPDATE or DELETE, provided its queue INSERT succeeded; when that INSERT failed it has
  appended none. For \<open>savePassword\<close> the record is the row it inserted, with the id it
  returns and \<open>synced = 0\<close>. \<open>saveUserOffline\<close> never appends a queue entry; when its
  statement succeeds it returns the id of the user row it wrote, which has \<open>synced = 0\<close>.
\<close>

theorem mutation_entries:
  "(savePassword env userId pd w = (Inr i, w') \<longrightarrow>
      (\<exists>prow. passwords w' = passwords w @ [prow] \<and> p_id prow = i \<and> p_synced prow = 0) \<and>
      (if sql_error env (Suc (clock w)) = None
       then \<exists>row. sync_queue w' = sync_queue w @ [row] \<and> table_name row = ''passwords'' \<and>
              record_id row = i \<and> operation row = ''INSERT'' \<and>
              data row = Some (password_json pd) \<and> attempts row = 0
       else sync_queue w' = sync_queue w)) \<and>
   (updatePassword env j pd w = (Inr (), w'') \<longrightarrow>
      (if sql_error env (Suc (clock w)) = None
       then \<exists>row. sync_queue w'' = sync_queue w @ [row] \<and> table_name row = ''passwords'' \<and>
              record_id row = j \<and> operation row = ''UPDATE'' \<and>
              data row = Some (password_json pd) \<and> attempts row = 0
       else sync_queue w'' = sync_queue w)) \<and>
   (deletePassword env j w = (Inr (), w''') \<longrightarrow>
      (if sql_error env (Suc (clock w)) = None
       then \<exists>row. sync_queue w''' = sync_queue w @ [row] \<and> table_name row = ''passwords'' \<and>
              record_id row = j \<and> operation row = ''DELETE'' \<and>
              data row = None \<and> attempts row = 0
       else sync_queue w''' = sync_queue w)) \<and>
   sync_queue (snd (saveUserOffline env userInfo w)) = sync_queue w \<and>
   (sql_error env (clock w) = None \<longrightarrow>
      (\<exists>row. fst (saveUserOffline env userInfo w) = Inr (u_id row) \<and>
             users (snd (saveUserOffline env userInfo w))
               = filter (\<lambda>r. u_google_id r \<noteq> ui_id userInfo \<and> u_email r \<noteq> ui_email userInfo) (users w)
                 @ [row] \<and>
             u_google_id row = ui_id userInfo \<and> u_email row = ui_email userInfo \<and>
             u_synced row = 0))"
  by (auto simp: write_defs saveUserOffline_def insert_or_replace_user_def split: option.splits)

theorem mutation_entries_witness:
  "(\<exists>i w'. savePassword quiet_env 1 pd1 idle_world = (Inr i, w') \<and>
      map p_id (passwords w') = [i] \<and>
      map (\<lambda>row. (table_name row, record_id row, operation row)) (sync_queue w')
        = [(''passwords'', i, ''INSERT'')]) \<and>
   (\<exists>w'. updatePassword quiet_env 5 pd1 idle_world = (Inr (), w') \<and>
      map (\<lambda>row. (table_name row, record_id row, operation row)) (sync_queue w')
        = [(''passwords'', 5, ''UPDATE'')]) \<and>
   (\<exists>w'. deletePassword quiet_env 5 idle_world = (Inr (), w') \<and>
      map (\<lambda>row. (table_name row, record_id row, operation row)) (sync_queue w')
        = [(''passwords'', 5, ''DELETE'')]) \<and>
   sync_queue (snd (saveUserOffline quiet_env ui1 idle_world)) = [] \<and>
   map u_synced (users (snd (saveUserOffline quiet_env ui1 idle_world))) = [0]"
proof -
  obtain i w1 where s: "savePassword quiet_env 1 pd1 idle_world = (Inr i, w1)"
    by (simp add: write_defs quiet_env_def idle_world_def pd1_def)
  obtain w2 where u: "updatePassword quiet_env 5 pd1 idle_world = (Inr (), w2)"
    by (simp add: write_defs quiet_env_def idle_world_def pd1_def)
  obtain w3 where d: "deletePassword quiet_env 5 idle_world = (Inr (), w3)"
    by (simp add: write_defs quiet_env_def idle_world_def pd1_def)
  have ok: "sql_error quiet_env (Suc (clock idle_world)) = None" "sync_queue idle_world = []"
    "sql_error quiet_env (clock idle_world) = None" "users idle_world = []"
    "passwords idle_world = []"
    by (simp_all add: quiet_env_def idle_world_def)
  from mutation_entries [of quiet_env 1 pd1 idle_world i w1 5 w2 w3 ui1] s u d ok
  show ?thesis by auto
qed

theorem saveUserOffline_counterexample:
  "fst (saveUserOffline quiet_env ui1 idle_world) = Inr 1 \<and>
   map u_email (users (snd (saveUserOffline quiet_env ui1 idle_world))) = [''ann@example.org''] \<and>
   map u_synced (users (snd (saveUserOffline quiet_env ui1 idle_world))) = [0] \<and>
   sync_queue (snd (saveUserOffline quiet_env ui1 idle_world)) = []"
  by (simp add: saveUserOffline_def insert_or_replace_user_def executeSql_def fresh_id_def Let_def
        quiet_env_def idle_world_def ui1_def)

section \<open>The in-progress flag\<close>

text \<open>
  Once the \<open>try\<close> block of \<open>performSync\<close> is entered, that is, once the guards are passed
  and the start event is delivered without an exception, the \<open>finally\<close> block clears
  the flag and publishes the end event, whatever happens in between.
\<close>

lemma performSync_resets_flag:
  assumes "\<not> (syncInProgress w \<and> \<not> force)" and "isOnline w"
    and "fst (notifyListeners env (SyncInProgress True) (w\<lparr>syncInProgress := True\<rparr>)) = Inr u"
  shows "syncInProgress (snd (performSync env force w)) = False \<and>
         last (published (snd (performSync env force w))) = SyncInProgress False"
  using assms
  by (auto simp: performSync_def split_beta split: sum.splits)

text \<open>
  Claim C7 at its failing input. \<open>performSync\<close> sets the flag and publishes the start
  event before its \<open>try\<close> block. With one subscriber whose callback throws on the start
  event, an accepted call is rejected with that exception, the flag stays set, no end
  event is published, and the next unforced call is turned away as busy.
\<close>

theorem progress_start_throw_leaves_busy:
  "isOnline (subscribe 1 idle_world) \<and> \<not> syncInProgress (subscribe 1 idle_world) \<and>
   fst (performSync start_throwing_env False (subscribe 1 idle_world)) = Inl boom \<and>
   syncInProgress (snd (performSync start_throwing_env False (subscribe 1 idle_world))) \<and>
   published (snd (performSync start_throwing_env False (subscribe 1 idle_world))) = [SyncInProgress True] \<and>
   fst (performSync start_throwing_env False
          (snd (performSync start_throwing_env False (subscribe 1 idle_world)))) = Inr busy_result"
  by (simp add: performSync_def notifyListeners_def subscribe_def busy_result_def
        quiet_env_def idle_world_def start_throwing_env_def boom_def)

section \<open>One turn of the drain loop\<close>

text \<open>
  Claim C2, as the code has it. In every turn of the drain loop that processes an entry
  whose table is neither \<open>users\<close> nor \<open>passwords\<close>, \<open>processSyncItem\<close> logs a warning and
  returns normally, so the turn treats the entry as synced: \<open>syncedCount\<close> grows by one,
  \<open>failedCount\<close> stays as it is, and \<open>removeSyncQueueItem\<close> is called on the entry's id.
  When that DELETE succeeds the queue after the turn is the queue before it without the
  rows of the entry's id; when it fails the queue is unchanged. No \<open>attempts\<close> changes.
\<close>

theorem unknown_table_removed:
  "table_name item \<noteq> ''users'' \<and> table_name item \<noteq> ''passwords'' \<longrightarrow>
     fst (syncItem env item (sc, fc) w) = Inr (Suc sc, fc) \<and>
     calls (snd (syncItem env item (sc, fc) w))
       = calls w @ [WarnUnknownTable (table_name item), RemoveSyncQueueItem (q_id item)] \<and>
     sync_queue (snd (syncItem env item (sc, fc) w))
       = (if sql_error env (clock w) = None
          then filter (\<lambda>r. q_id r \<noteq> q_id item) (sync_queue w)
          else sync_queue w)"
  by (auto simp: syncItem_def processSyncItem_def removeSyncQueueItem_def executeSql_def
        delete_queue_def split: option.splits)

theorem unknown_table_removed_witness:
  "fst (syncItem quiet_env widget_entry (0, 0) widget_world) = Inr (1, 0) \<and>
   calls (snd (syncItem quiet_env widget_entry (0, 0) widget_world))
     = [WarnUnknownTable ''widgets'', RemoveSyncQueueItem 1] \<and>
   sync_queue (snd (syncItem quiet_env widget_entry (0, 0) widget_world)) = []"
  using unknown_table_removed [of widget_entry quiet_env 0 0 widget_world]
  by (simp add: quiet_env_def idle_world_def widget_entry_def widget_world_def)

theorem unknown_table_counterexample:
  "sync_queue widget_world = [widget_entry] \<and> table_name widget_entry = ''widgets'' \<and>
   fst (performSync quiet_env False widget_world) = Inr (completed_result 1 0) \<and>
   sync_queue (snd (performSync quiet_env False widget_world)) = []"
  by (simp add: store_defs engine_defs quiet_env_def idle_world_def widget_entry_def widget_world_def)

section \<open>Removal from the queue\<close>

lemma new_calls_append [simp]: "calls w' = calls w @ cs \<Longrightarrow> new_calls w w' = cs"
  by (simp add: new_calls_def)

lemma markAsSynced_new_calls [simp]:
  "calls (markAsSynced env t r w) = calls w @ [MarkAsSynced t r]"
  by (simp add: markAsSynced_def executeSql_def set_synced_def split: option.splits)

lemma removeSyncQueueItem_calls [simp]:
  "calls (removeSyncQueueItem env i w) = calls w @ [RemoveSyncQueueItem i]"
  by (simp add: removeSyncQueueItem_def executeSql_def delete_queue_def split: option.splits)

lemma gateway_calls [simp]:
  "calls (snd (gateway env req dflt w)) = calls w @ [GatewayFetch req (fetch env (clock w) req)]"
  by (simp add: gateway_def do_fetch_def Let_def split: fetch_result.splits option.splits)

lemma gateway_ok:
  "(\<exists>b. fst (gateway env req dflt w) = Inr b)
     \<longleftrightarrow> (\<exists>r body. fetch env (clock w) req = Resolves r \<and> resp_ok r \<and> resp_json r = Some body)"
  by (auto simp: gateway_def do_fetch_def Let_def split: fetch_result.splits option.splits)

lemma saveUserToDB_calls:
  "\<exists>cs. calls (snd (saveUserToDB env u w)) = calls w @ cs \<and> (\<forall>i. RemoveSyncQueueItem i \<notin> set cs)"
  by (auto simp: saveUserToDB_def do_fetch_def Let_def split: fetch_result.splits option.splits)

lemma syncUser_calls:
  "\<exists>cs. calls (snd (syncUser env r op d w)) = calls w @ cs \<and> (\<forall>i. RemoveSyncQueueItem i \<notin> set cs)"
proof (cases "op = ''INSERT''")
  case False
  then show ?thesis by (simp add: syncUser_def)
next
  case True
  obtain res w1 where s: "saveUserToDB env d w = (res, w1)" by (cases "saveUserToDB env d w")
  from saveUserToDB_calls [of env d w] s
  obtain cs where cs: "calls w1 = calls w @ cs" "\<forall>i. RemoveSyncQueueItem i \<notin> set cs" by auto
  show ?thesis
    using True s cs by (cases res) (auto simp: syncUser_def)
qed

lemma syncPassword_calls:
  "\<exists>cs. calls (snd (syncPassword env r op d w)) = calls w @ cs \<and> (\<forall>i. RemoveSyncQueueItem i \<notin> set cs)"
  by (auto simp: syncPassword_def getCurrentUser_def createPasswordOnServer_def
        updatePasswordOnServer_def deletePasswordOnServer_def split_beta
        split: bool.splits sum.splits)

lemma processSyncItem_calls:
  "\<exists>cs. calls (snd (processSyncItem env item w)) = calls w @ cs \<and> (\<forall>i. RemoveSyncQueueItem i \<notin> set cs)"
  using syncUser_calls syncPassword_calls
  by (simp add: processSyncItem_def)

lemma syncItem_removal:
  "RemoveSyncQueueItem (q_id item) \<in> set (new_calls w (snd (syncItem env item counts w)))
     \<longleftrightarrow> fst (processSyncItem env item w) = Inr ()"
proof -
  obtain res w1 where p: "processSyncItem env item w = (res, w1)"
    by (cases "processSyncItem env item w")
  from processSyncItem_calls [of env item w] p
  obtain cs where cs: "calls w1 = calls w @ cs" "\<forall>i. RemoveSyncQueueItem i \<notin> set cs" by auto
  show ?thesis
  proof (cases res)
    case (Inr u)
    with p cs show ?thesis
      by (simp add: syncItem_def new_calls_def)
  next
    case (Inl err)
    with p cs show ?thesis
      by (simp add: syncItem_def new_calls_def executeSql_def increment_attempts_def
            split: option.splits)
  qed
qed

lemma via_gateway:
  assumes "currentUser env (clock w)"
  shows "fst (case gateway env req dflt (tick (record_call GetCurrentUser w)) of
                (Inl e, w2) \<Rightarrow> (Inl (password_sync_failed e), w2)
              | (Inr b, w2) \<Rightarrow> (Inr (), f w2)) = Inr ()
         \<longleftrightarrow> (\<exists>r body. fetch env (Suc (clock w)) req = Resolves r \<and> resp_ok r \<and> resp_json r = Some body)"
  using gateway_ok [of env req dflt "tick (record_call GetCurrentUser w)"]
  by (auto split: prod.splits sum.splits)

lemma syncPassword_new_calls:
  assumes "op = ''INSERT'' \<or> op = ''UPDATE'' \<or> op = ''DELETE''"
  shows "\<exists>req. (fst (syncPassword env r op d w) = Inr ()
            \<longleftrightarrow> currentUser env (clock w) \<and>
                (\<exists>rs body. fetch env (Suc (clock w)) req = Resolves rs \<and> resp_ok rs \<and> resp_json rs = Some body)) \<and>
         (\<forall>q res. GatewayFetch q res \<in> set (new_calls w (snd (syncPassword env r op d w)))
            \<longleftrightarrow> currentUser env (clock w) \<and> q = req \<and> res = fetch env (Suc (clock w)) req)"
proof (cases "currentUser env (clock w)")
  case False
  then show ?thesis
    by (simp add: syncPassword_def getCurrentUser_def new_calls_def)
next
  case True
  let ?w1 = "tick (record_call GetCurrentUser w)"
  have shape: "\<exists>req dflt f. syncPassword env r op d w =
      (case gateway env req dflt ?w1 of
         (Inl e, w2) \<Rightarrow> (Inl (password_sync_failed e), w2)
       | (Inr b, w2) \<Rightarrow> (Inr (), f w2)) \<and>
      (\<forall>x. \<exists>cs. calls (f x) = calls x @ cs \<and> (\<forall>q res. GatewayFetch q res \<notin> set cs))"
  proof -
    have mark: "\<forall>x. \<exists>cs. calls (markAsSynced env ''passwords'' r x) = calls x @ cs \<and>
                  (\<forall>q res. GatewayFetch q res \<notin> set cs)"
      by simp
    have idle: "\<forall>x::world. \<exists>cs. calls ((\<lambda>y. y) x) = calls x @ cs \<and>
                  (\<forall>q res. GatewayFetch q res \<notin> set cs)"
      by simp
    from assms consider "op = ''INSERT''" | "op = ''UPDATE''" | "op = ''DELETE''" by blast
    then show ?thesis
    proof cases
      case 1
      show ?thesis
        apply (rule exI [where x = "\<lparr>req_method = ''POST'', req_url = API_BASE_URL @ ''/passwords'',
                                     req_body = Some d\<rparr>"])
        apply (rule exI [where x = "''Failed to create password on server''"])
        apply (rule exI [where x = "markAsSynced env ''passwords'' r"])
        using True 1 mark
        apply (simp add: syncPassword_def getCurrentUser_def createPasswordOnServer_def)
        done
    next
      case 2
      show ?thesis
        apply (rule exI [where x = "\<lparr>req_method = ''PUT'',
                                     req_url = API_BASE_URL @ ''/passwords/'' @ show_nat r,
                                     req_body = Some d\<rparr>"])
        apply (rule exI [where x = "''Failed to update password on server''"])
        apply (rule exI [where x = "markAsSynced env ''passwords'' r"])
        using True 2 mark
        apply (simp add: syncPassword_def getCurrentUser_def updatePasswordOnServer_def)
        done
    next
      case 3
      show ?thesis
        apply (rule exI [where x = "\<lparr>req_method = ''DELETE'',
                                     req_url = API_BASE_URL @ ''/passwords/'' @ show_nat r,
                                     req_body = None\<rparr>"])
        apply (rule exI [where x = "''Failed to delete password on server''"])
        apply (rule exI [where x = "\<lambda>y. y"])
        using True 3
        apply (simp add: syncPassword_def getCurrentUser_def deletePasswordOnServer_def)
        done
    qed
  qed
  then obtain req dflt f where
    eq: "syncPassword env r op d w =
      (case gateway env req dflt ?w1 of
         (Inl e, w2) \<Rightarrow> (Inl (password_sync_failed e), w2)
       | (Inr b, w2) \<Rightarrow> (Inr (), f w2))"
    and f: "\<forall>x. \<exists>cs. calls (f x) = calls x @ cs \<and> (\<forall>q res. GatewayFetch q res \<notin> set cs)"
    by blast
  obtain res w2 where g: "gateway env req dflt ?w1 = (res, w2)"
    by (cases "gateway env req dflt ?w1")
  have c2: "calls w2 = calls w @ [GetCurrentUser, GatewayFetch req (fetch env (Suc (clock w)) req)]"
    using gateway_calls [of env req dflt ?w1] unfolding g by simp
  from f obtain cs where cs: "calls (f w2) = calls w2 @ cs" "\<forall>q res. GatewayFetch q res \<notin> set cs"
    by blast
  have calls_all: "\<forall>q res. GatewayFetch q res \<in> set (new_calls w (snd (syncPassword env r op d w)))
            \<longleftrightarrow> q = req \<and> res = fetch env (Suc (clock w)) req"
    using eq g c2 cs by (cases res) (auto simp: new_calls_def)
  have "fst (syncPassword env r op d w) = Inr ()
      \<longleftrightarrow> (\<exists>rs body. fetch env (Suc (clock w)) req = Resolves rs \<and> resp_ok rs \<and> resp_json rs = Some body)"
    unfolding eq using via_gateway [OF True, where req = req and dflt = dflt and f = f] by simp
  with calls_all True show ?thesis by blast
qed

lemma password_dispatch:
  assumes "table_name item = ''passwords''"
    and "operation item = ''INSERT'' \<or> operation item = ''UPDATE'' \<or> operation item = ''DELETE''"
  shows "fst (processSyncItem env item w) = Inr ()
     \<longleftrightarrow> (\<exists>req r body. GatewayFetch req (Resolves r) \<in> set (new_calls w (snd (processSyncItem env item w)))
            \<and> resp_ok r \<and> resp_json r = Some body)"
proof -
  have eq: "processSyncItem env item w = syncPassword env (record_id item) (operation item) (data item) w"
    using assms(1) by (simp add: processSyncItem_def)
  from syncPassword_new_calls [OF assms(2), of env "record_id item" "data item" w]
  obtain req where
    ok: "fst (syncPassword env (record_id item) (operation item) (data item) w) = Inr ()
            \<longleftrightarrow> currentUser env (clock w) \<and>
                (\<exists>rs body. fetch env (Suc (clock w)) req = Resolves rs \<and> resp_ok rs \<and> resp_json rs = Some body)"
    and cl: "\<forall>q res. GatewayFetch q res \<in> set (new_calls w (snd (syncPassword env (record_id item) (operation item) (data item) w)))
            \<longleftrightarrow> currentUser env (clock w) \<and> q = req \<and> res = fetch env (Suc (clock w)) req"
    by blast
  show ?thesis
    unfolding eq using ok cl by metis
qed

lemma no_dispatch:
  assumes "(table_name item \<noteq> ''users'' \<and> table_name item \<noteq> ''passwords'') \<or>
           (table_name item = ''users'' \<and> operation item \<noteq> ''INSERT'')"
  shows "fst (processSyncItem env item w) = Inr () \<and>
         (\<forall>req res. GatewayFetch req res \<notin> set (new_calls w (snd (processSyncItem env item w))))"
  using assms
  by (auto simp: processSyncItem_def syncUser_def new_calls_def)

text \<open>
  Claim C1, as the code has it. In every turn of the drain loop \<open>removeSyncQueueItem\<close>
  is called on the entry's id if and only if \<open>processSyncItem\<close> returned without
  throwing; an entry whose \<open>processSyncItem\<close> threw is not removed in that turn. For a
  \<open>passwords\<close> entry with operation INSERT, UPDATE or DELETE, \<open>processSyncItem\<close> returns
  exactly when a gateway request was dispatched and its response was ok with a body
  that parses. An entry for which no request is dispatched at all (a table other than
  \<open>users\<close> and \<open>passwords\<close>, or a \<open>users\<close> entry whose operation is not INSERT) is
  removed as well.
\<close>

theorem removal_follows_dispatch:
  "(RemoveSyncQueueItem (q_id item) \<in> set (new_calls w (snd (syncItem env item counts w)))
      \<longleftrightarrow> fst (processSyncItem env item w) = Inr ()) \<and>
   (table_name item = ''passwords'' \<and>
    (operation item = ''INSERT'' \<or> operation item = ''UPDATE'' \<or> operation item = ''DELETE'') \<longrightarrow>
      (fst (processSyncItem env item w) = Inr ()
         \<longleftrightarrow> (\<exists>req r body.
                GatewayFetch req (Resolves r) \<in> set (new_calls w (snd (processSyncItem env item w))) \<and>
                resp_ok r \<and> resp_json r = Some body))) \<and>
   ((table_name item \<noteq> ''users'' \<and> table_name item \<noteq> ''passwords'') \<or>
    (table_name item = ''users'' \<and> operation item \<noteq> ''INSERT'') \<longrightarrow>
      fst (processSyncItem env item w) = Inr () \<and>
      (\<forall>req res. GatewayFetch req res \<notin> set (new_calls w (snd (processSyncItem env item w)))))"
  using syncItem_removal [of item w env counts] password_dispatch [of item env w]
    no_dispatch [of item env w]
  by blast

theorem removal_follows_dispatch_witness:
  "RemoveSyncQueueItem 1 \<in> set (new_calls one_entry_world (snd (syncItem quiet_env password_entry (0, 0) one_entry_world))) \<and>
   RemoveSyncQueueItem 1 \<notin> set (new_calls one_entry_world (snd (syncItem unreachable_env password_entry (0, 0) one_entry_world))) \<and>
   fst (processSyncItem quiet_env password_entry one_entry_world) = Inr () \<and>
   fst (processSyncItem unreachable_env password_entry one_entry_world) \<noteq> Inr () \<and>
   fst (processSyncItem unreachable_env widget_entry widget_world) = Inr () \<and>
   new_calls widget_world (snd (processSyncItem unreachable_env widget_entry widget_world))
     = [WarnUnknownTable ''widgets'']"
  using removal_follows_dispatch [of password_entry one_entry_world quiet_env "(0, 0)"]
    removal_follows_dispatch [of password_entry one_entry_world unreachable_env "(0, 0)"]
    removal_follows_dispatch [of widget_entry widget_world unreachable_env "(0, 0)"]
  by (simp add: new_calls_def store_defs engine_defs quiet_env_def idle_world_def
        unreachable_env_def password_entry_def one_entry_world_def pd1_def password_json_def widget_entry_def widget_world_def)

theorem rejected_user_counterexample:
  "sync_queue user_entry_world = [user_entry, user_update_entry] \<and>
   fst (performSync rejecting_env False user_entry_world) = Inr (completed_result 2 0) \<and>
   calls (snd (performSync rejecting_env False user_entry_world))
     = [GatewayFetch
          \<lparr>req_method = ''POST'', req_url = ''https://secretvault-api.onrender.com/api/auth/signup'',
           req_body = Some (Some [(''google_id'', ''g-1''), (''email'', ''ann@example.org''),
                                  (''name'', ''Ann'')])\<rparr>
          (Resolves \<lparr>resp_ok = False, resp_json = Some [(''error'', ''User already exists'')]\<rparr>),
        RemoveSyncQueueItem 1, RemoveSyncQueueItem 2] \<and>
   sync_queue (snd (performSync rejecting_env False user_entry_world)) = []"
  by (simp add: store_defs engine_defs quiet_env_def idle_world_def rejecting_env_def
        user_entry_def user_update_entry_def user_entry_world_def List.map_filter_def show_nat.simps)

section \<open>Retry persistence\<close>

lemma markAsSynced_sync_queue [simp]: "sync_queue (markAsSynced env t r w) = sync_queue w"
  by (simp add: markAsSynced_def executeSql_def set_synced_def split: option.splits)

lemma gateway_sync_queue [simp]: "sync_queue (snd (gateway env req dflt w)) = sync_queue w"
  by (simp add: gateway_def do_fetch_def Let_def split: fetch_result.splits option.splits)

lemma saveUserToDB_sync_queue [simp]: "sync_queue (snd (saveUserToDB env u w)) = sync_queue w"
  by (simp add: saveUserToDB_def do_fetch_def Let_def split: fetch_result.splits option.splits)

lemma syncUser_sync_queue [simp]: "sync_queue (snd (syncUser env r op d w)) = sync_queue w"
  by (simp add: syncUser_def split_beta split: sum.splits)

lemma syncPassword_sync_queue [simp]: "sync_queue (snd (syncPassword env r op d w)) = sync_queue w"
  by (simp add: syncPassword_def getCurrentUser_def createPasswordOnServer_def
        updatePasswordOnServer_def deletePasswordOnServer_def split_beta
        split: bool.splits sum.splits)

lemma processSyncItem_sync_queue [simp]:
  "sync_queue (snd (processSyncItem env item w)) = sync_queue w"
  by (simp add: processSyncItem_def)

text \<open>What one turn of the loop does to the queue table.\<close>

lemma syncItem_sync_queue:
  "sync_queue (snd (syncItem env item counts w)) = sync_queue w \<or>
   sync_queue (snd (syncItem env item counts w)) = filter (\<lambda>r. q_id r \<noteq> q_id item) (sync_queue w) \<or>
   sync_queue (snd (syncItem env item counts w))
     = map (\<lambda>r. if q_id r = q_id item then r\<lparr>attempts := attempts r + 1\<rparr> else r) (sync_queue w)"
proof -
  obtain res w1 where p: "processSyncItem env item w = (res, w1)"
    by (cases "processSyncItem env item w")
  have q: "sync_queue w1 = sync_queue w"
    using processSyncItem_sync_queue [of env item w] unfolding p by simp
  show ?thesis
    using p q
    by (cases res)
       (auto simp: syncItem_def removeSyncQueueItem_def executeSql_def delete_queue_def
          increment_attempts_def split: option.splits)
qed

lemma syncItem_failed:
  assumes "fst (processSyncItem env item w) = Inl err"
    and "sql_error env (clock (snd (processSyncItem env item w))) = None"
  shows "fst (syncItem env item counts w) = Inr (fst counts, Suc (snd counts)) \<and>
         sync_queue (snd (syncItem env item counts w))
           = map (\<lambda>r. if q_id r = q_id item then r\<lparr>attempts := attempts r + 1\<rparr> else r) (sync_queue w)"
proof -
  obtain res w1 where p: "processSyncItem env item w = (res, w1)"
    by (cases "processSyncItem env item w")
  have q: "sync_queue w1 = sync_queue w"
    using processSyncItem_sync_queue [of env item w] unfolding p by simp
  from assms p q show ?thesis
    by (simp add: syncItem_def executeSql_def increment_attempts_def)
qed

lemma syncItem_failed_unrecorded:
  assumes "fst (processSyncItem env item w) = Inl err"
    and "sql_error env (clock (snd (processSyncItem env item w))) = Some e"
  shows "fst (syncItem env item counts w) = Inl e \<and>
         sync_queue (snd (syncItem env item counts w)) = sync_queue w"
proof -
  obtain res w1 where p: "processSyncItem env item w = (res, w1)"
    by (cases "processSyncItem env item w")
  have q: "sync_queue w1 = sync_queue w"
    using processSyncItem_sync_queue [of env item w] unfolding p by simp
  from assms p q show ?thesis
    by (simp add: syncItem_def executeSql_def)
qed

lemma getSyncQueue_cases:
  "sync_queue (snd (getSyncQueue env w)) = sync_queue w \<and>
   (fst (getSyncQueue env w) = [] \<or> fst (getSyncQueue env w) = sort_key created_at (sync_queue w))"
  by (simp add: getSyncQueue_def executeSql_def select_queue_def split: option.splits)

lemma syncItem_returns:
  "\<forall>n. sql_error env n = None \<Longrightarrow> \<exists>c. fst (syncItem env item counts w) = Inr c"
  by (cases "processSyncItem env item w")
     (auto simp: syncItem_def executeSql_def increment_attempts_def split: sum.splits)

lemma processQueue_returns:
  "\<forall>n. sql_error env n = None \<Longrightarrow> \<exists>c. fst (processQueue env items counts w) = Inr c"
proof (induction items arbitrary: counts w)
  case Nil
  then show ?case by simp
next
  case (Cons item items)
  from syncItem_returns [OF Cons.prems, of item counts w]
  obtain c w1 where s: "syncItem env item counts w = (Inr c, w1)"
    by (cases "syncItem env item counts w") auto
  with Cons.IH [OF Cons.prems, of c w1] show ?case by simp
qed

lemma processQueue_append:
  "processQueue env (xs @ ys) counts w =
     (case processQueue env xs counts w of
        (Inl e, w1) \<Rightarrow> (Inl e, w1)
      | (Inr c, w1) \<Rightarrow> processQueue env ys c w1)"
  by (induction xs arbitrary: counts w) (auto split: prod.splits sum.splits)

text \<open>Rows whose id is not the one being processed are left alone.\<close>

lemma syncItem_other_rows:
  "q_id r \<noteq> q_id item \<Longrightarrow>
   r \<in> set (sync_queue (snd (syncItem env item counts w))) \<longleftrightarrow> r \<in> set (sync_queue w)"
  using syncItem_sync_queue [of env item counts w] by auto

lemma processQueue_other_rows:
  "q_id r \<notin> q_id ` set items \<Longrightarrow>
   r \<in> set (sync_queue (snd (processQueue env items counts w))) \<longleftrightarrow> r \<in> set (sync_queue w)"
proof (induction items arbitrary: counts w)
  case Nil
  then show ?case by simp
next
  case (Cons item items)
  obtain res w1 where s: "syncItem env item counts w = (res, w1)"
    by (cases "syncItem env item counts w")
  from Cons.prems have ne: "q_id r \<noteq> q_id item" and rest: "q_id r \<notin> q_id ` set items" by auto
  have one: "r \<in> set (sync_queue w1) \<longleftrightarrow> r \<in> set (sync_queue w)"
    using syncItem_other_rows [OF ne, of env counts w] unfolding s by simp
  show ?case
  proof (cases res)
    case (Inl e)
    with s one show ?thesis by simp
  next
    case (Inr c)
    with s one Cons.IH [OF rest, of c w1] show ?thesis by simp
  qed
qed

text \<open>The primary key of the queue table stays a key.\<close>

lemma syncItem_distinct:
  assumes "distinct (map q_id (sync_queue w))"
  shows "distinct (map q_id (sync_queue (snd (syncItem env item counts w))))"
proof -
  let ?bump = "\<lambda>r. if q_id r = q_id item then r\<lparr>attempts := attempts r + 1\<rparr> else r"
  have m: "map q_id (map ?bump xs) = map q_id xs" for xs
    by (induction xs) auto
  from syncItem_sync_queue [of env item counts w]
  consider "sync_queue (snd (syncItem env item counts w)) = sync_queue w"
    | "sync_queue (snd (syncItem env item counts w)) = filter (\<lambda>r. q_id r \<noteq> q_id item) (sync_queue w)"
    | "sync_queue (snd (syncItem env item counts w)) = map ?bump (sync_queue w)"
    by blast
  then show ?thesis
  proof cases
    case 1
    with assms show ?thesis by simp
  next
    case 2
    with assms show ?thesis by (simp add: distinct_map_filter)
  next
    case 3
    show ?thesis unfolding 3 m using assms .
  qed
qed

lemma processQueue_distinct:
  "distinct (map q_id (sync_queue w)) \<Longrightarrow>
   distinct (map q_id (sync_queue (snd (processQueue env items counts w))))"
proof (induction items arbitrary: counts w)
  case Nil
  then show ?case by simp
next
  case (Cons item items)
  obtain res w1 where s: "syncItem env item counts w = (res, w1)"
    by (cases "syncItem env item counts w")
  have d1: "distinct (map q_id (sync_queue w1))"
    using syncItem_distinct [OF Cons.prems, of env item counts] unfolding s by simp
  show ?case
  proof (cases res)
    case (Inl e)
    with s d1 show ?thesis by simp
  next
    case (Inr c)
    with s Cons.IH [OF d1, of c] show ?thesis by simp
  qed
qed

text \<open>
  A cycle never lowers \<open>attempts\<close> and never changes another column: every row present
  afterwards was present before, with at most as many attempts.
\<close>

lemma aged_refl [simp]: "aged r r"
  by (simp add: aged_def)

lemma aged_trans: "aged a b \<Longrightarrow> aged b c \<Longrightarrow> aged a c"
  by (cases a, cases b, cases c) (auto simp: aged_def)

lemma syncItem_aged:
  assumes "r' \<in> set (sync_queue (snd (syncItem env item counts w)))"
  shows "\<exists>r\<in>set (sync_queue w). aged r r'"
proof -
  let ?bump = "\<lambda>r. if q_id r = q_id item then r\<lparr>attempts := attempts r + 1\<rparr> else r"
  from syncItem_sync_queue [of env item counts w]
  consider "sync_queue (snd (syncItem env item counts w)) = sync_queue w"
    | "sync_queue (snd (syncItem env item counts w)) = filter (\<lambda>r. q_id r \<noteq> q_id item) (sync_queue w)"
    | "sync_queue (snd (syncItem env item counts w)) = map ?bump (sync_queue w)"
    by blast
  then show ?thesis
  proof cases
    case 1
    with assms have "r' \<in> set (sync_queue w)" by simp
    then show ?thesis by (rule bexI [rotated]) simp
  next
    case 2
    with assms have "r' \<in> set (sync_queue w)" by simp
    then show ?thesis by (rule bexI [rotated]) simp
  next
    case 3
    with assms obtain r where r: "r \<in> set (sync_queue w)" "r' = ?bump r" by auto
    have "aged r (?bump r)" by (simp add: aged_def)
    with r show ?thesis by blast
  qed
qed

lemma processQueue_aged:
  "r' \<in> set (sync_queue (snd (processQueue env items counts w))) \<Longrightarrow>
   \<exists>r\<in>set (sync_queue w). aged r r'"
proof (induction items arbitrary: counts w)
  case Nil
  then show ?case by (auto intro: bexI [where x = r'])
next
  case (Cons item items)
  obtain res w1 where s: "syncItem env item counts w = (res, w1)"
    by (cases "syncItem env item counts w")
  have step: "\<exists>r\<in>set (sync_queue w). aged r x" if "x \<in> set (sync_queue w1)" for x
    using syncItem_aged [of x env item counts w] that unfolding s by simp
  show ?case
  proof (cases res)
    case (Inl e)
    with s Cons.prems step show ?thesis by simp
  next
    case (Inr c)
    with s Cons.prems have "r' \<in> set (sync_queue (snd (processQueue env items c w1)))" by simp
    from Cons.IH [OF this] obtain m where m: "m \<in> set (sync_queue w1)" "aged m r'" by blast
    from step [OF m(1)] obtain r where "r \<in> set (sync_queue w)" "aged r m" by blast
    with m(2) show ?thesis by (blast intro: aged_trans)
  qed
qed

lemma only_row_with_id:
  "distinct (map f xs) \<Longrightarrow> x \<in> set xs \<Longrightarrow> filter (\<lambda>r. f r = f x) xs = [x]"
proof (induction xs)
  case Nil
  then show ?case by simp
next
  case (Cons a xs)
  show ?case
  proof (cases "a = x")
    case True
    from Cons.prems True have "f x \<notin> f ` set xs" by simp
    then have "\<forall>r\<in>set xs. f r \<noteq> f x" by (metis image_eqI)
    then have "filter (\<lambda>r. f r = f x) xs = []"
      by (simp add: filter_empty_conv)
    with True show ?thesis by simp
  next
    case False
    with Cons.prems have "x \<in> set xs" "f a \<noteq> f x" by auto
    with Cons.IH Cons.prems show ?thesis by simp
  qed
qed

lemma getSyncQueue_ok:
  "sql_error env (clock w) = None \<Longrightarrow>
   fst (getSyncQueue env w) = sort_key created_at (sync_queue w) \<and>
   sync_queue (snd (getSyncQueue env w)) = sync_queue w \<and>
   clock (snd (getSyncQueue env w)) = Suc (clock w)"
  by (simp add: getSyncQueue_def executeSql_def select_queue_def)

lemma syncBody_sync_queue:
  "sync_queue (snd (syncBody env w))
     = sync_queue (snd (processQueue env (fst (getSyncQueue env w)) (0, 0) (snd (getSyncQueue env w))))"
proof -
  obtain q w1 where g: "getSyncQueue env w = (q, w1)" by (cases "getSyncQueue env w")
  obtain res w2 where p: "processQueue env q (0, 0) w1 = (res, w2)"
    by (cases "processQueue env q (0, 0) w1")
  show ?thesis
  proof (cases res)
    case (Inl e)
    with g p show ?thesis by (simp add: syncBody_def)
  next
    case (Inr c)
    obtain sc fc where c: "c = (sc, fc)" by (cases c)
    have "sync_queue (snd (notifyListeners env (SyncCompleted sc fc) w2)) = sync_queue w2"
      by simp
    with g p Inr c show ?thesis
      by (cases "notifyListeners env (SyncCompleted sc fc) w2")
         (auto simp: syncBody_def split: sum.splits)
  qed
qed

lemma syncTryCatch_sync_queue:
  "sync_queue (snd (syncTryCatch env w)) = sync_queue (snd (syncBody env w))"
proof -
  obtain res w1 where b: "syncBody env w = (res, w1)" by (cases "syncBody env w")
  show ?thesis
  proof (cases res)
    case (Inr c)
    with b show ?thesis by (cases c) (simp add: syncTryCatch_def)
  next
    case (Inl e)
    have "sync_queue (snd (notifyListeners env (SyncFailed (err_message e)) w1)) = sync_queue w1"
      by simp
    with b Inl show ?thesis
      by (cases "notifyListeners env (SyncFailed (err_message e)) w1")
         (auto simp: syncTryCatch_def split: sum.splits)
  qed
qed

lemma performSync_sync_queue:
  assumes "\<not> (syncInProgress w \<and> \<not> force)" and "isOnline w"
    and "notifyListeners env (SyncInProgress True) (w\<lparr>syncInProgress := True\<rparr>) = (Inr (), ws)"
  shows "sync_queue (snd (performSync env force w)) = sync_queue (snd (syncBody env ws))"
proof -
  obtain out w2 where t: "syncTryCatch env ws = (out, w2)" by (cases "syncTryCatch env ws")
  have q2: "sync_queue w2 = sync_queue (snd (syncBody env ws))"
    using syncTryCatch_sync_queue [of env ws] unfolding t by simp
  have "sync_queue (snd (notifyListeners env (SyncInProgress False) (w2\<lparr>syncInProgress := False\<rparr>)))
          = sync_queue w2"
    by simp
  with assms t q2 show ?thesis
    by (cases "notifyListeners env (SyncInProgress False) (w2\<lparr>syncInProgress := False\<rparr>)")
       (auto simp: performSync_def split: sum.splits)
qed

lemma failed_entry_after_cycle:
  assumes pk: "distinct (map q_id (sync_queue w))"
    and accepted: "\<not> (syncInProgress w \<and> \<not> force)" "isOnline w"
    and start: "notifyListeners env (SyncInProgress True) (w\<lparr>syncInProgress := True\<rparr>) = (Inr (), ws)"
    and snap: "getSyncQueue env ws = (pre @ E # post, w0)"
    and pre: "processQueue env pre (0, 0) w0 = (Inr c1, w1)"
    and fail: "fst (processSyncItem env E w1) = Inl err"
  shows "filter (\<lambda>r. q_id r = q_id E) (sync_queue (snd (performSync env force w)))
           = [E\<lparr>attempts := attempts E +
                  (if sql_error env (clock (snd (processSyncItem env E w1))) = None then 1 else 0)\<rparr>] \<and>
         (\<forall>w''. sync_queue w'' = sync_queue (snd (performSync env force w)) \<and>
                sql_error env (clock w'') = None \<longrightarrow>
            E\<lparr>attempts := attempts E +
                  (if sql_error env (clock (snd (processSyncItem env E w1))) = None then 1 else 0)\<rparr>
              \<in> set (fst (getSyncQueue env w''))) \<and>
         (\<forall>e. sql_error env (clock (snd (processSyncItem env E w1))) = Some e \<longrightarrow>
            fst (processQueue env (pre @ E # post) (0, 0) w0) = Inl e)"
proof -
  let ?k = "if sql_error env (clock (snd (processSyncItem env E w1))) = None then 1 else (0::nat)"
  let ?E' = "E\<lparr>attempts := attempts E + ?k\<rparr>"
  let ?bump = "\<lambda>r. if q_id r = q_id E then r\<lparr>attempts := attempts r + 1\<rparr> else r"
  have qs: "sync_queue ws = sync_queue w"
    using notifyListeners_frame(3) [of env "SyncInProgress True" "w\<lparr>syncInProgress := True\<rparr>"]
    unfolding start by simp
  from getSyncQueue_cases [of env ws] snap
  have snapshot: "pre @ E # post = sort_key created_at (sync_queue ws)"
    and q0: "sync_queue w0 = sync_queue ws"
    by auto
  have set_snap: "set (pre @ E # post) = set (sync_queue w)"
    unfolding snapshot qs by simp
  have "distinct (sort_key created_at (sync_queue w)) \<and>
        inj_on q_id (set (sort_key created_at (sync_queue w)))"
    using pk by (simp add: distinct_map)
  then have dist_snap: "distinct (map q_id (pre @ E # post))"
    unfolding snapshot qs by (simp add: distinct_map)
  then have not_pre: "q_id E \<notin> q_id ` set pre" and not_post: "q_id E \<notin> q_id ` set post"
    by auto
  have E0: "E \<in> set (sync_queue w0)"
    using set_snap q0 qs by auto
  have d0: "distinct (map q_id (sync_queue w0))"
    using pk q0 qs by simp
  \<comment> \<open>the entries before \<open>E\<close>\<close>
  have E1: "E \<in> set (sync_queue w1)"
    using processQueue_other_rows [OF not_pre, of env "(0, 0)" w0] E0 unfolding pre by simp
  have d1: "distinct (map q_id (sync_queue w1))"
    using processQueue_distinct [OF d0, of env pre "(0, 0)"] unfolding pre by simp
  \<comment> \<open>the turn of \<open>E\<close>, and the entries after it when the loop goes on\<close>
  let ?loop = "processQueue env (pre @ E # post) (0, 0) w0"
  have after: "?E' \<in> set (sync_queue (snd ?loop)) \<and> distinct (map q_id (sync_queue (snd ?loop)))"
  proof (cases "sql_error env (clock (snd (processSyncItem env E w1)))")
    case None
    obtain r2 w2 where s: "syncItem env E c1 w1 = (r2, w2)" by (cases "syncItem env E c1 w1")
    from syncItem_failed [OF fail None, of c1] s
    have r2: "r2 = Inr (fst c1, Suc (snd c1))" and q2: "sync_queue w2 = map ?bump (sync_queue w1)"
      by simp_all
    have E2: "?E' \<in> set (sync_queue w2)"
      unfolding q2 using E1 None by force
    have d2: "distinct (map q_id (sync_queue w2))"
      using syncItem_distinct [OF d1, of env E c1] unfolding s by simp
    let ?rest = "processQueue env post (fst c1, Suc (snd c1)) w2"
    have whole: "?loop = ?rest"
      by (simp add: processQueue_append pre s r2)
    have "q_id ?E' \<notin> q_id ` set post"
      using not_post by simp
    from processQueue_other_rows [OF this, of env "(fst c1, Suc (snd c1))" w2] E2
    have "?E' \<in> set (sync_queue (snd ?rest))" by simp
    moreover have "distinct (map q_id (sync_queue (snd ?rest)))"
      using processQueue_distinct [OF d2] .
    ultimately show ?thesis unfolding whole by simp
  next
    case (Some e)
    obtain r2 w2 where s: "syncItem env E c1 w1 = (r2, w2)" by (cases "syncItem env E c1 w1")
    from syncItem_failed_unrecorded [OF fail Some, of c1] s
    have r2: "r2 = Inl e" and q2: "sync_queue w2 = sync_queue w1"
      by simp_all
    have whole: "?loop = (Inl e, w2)"
      by (simp add: processQueue_append pre s r2)
    have "?E' = E" using Some by simp
    with E1 d1 q2 show ?thesis unfolding whole by simp
  qed
  \<comment> \<open>the state \<open>performSync\<close> returns\<close>
  have final: "sync_queue (snd (performSync env force w)) = sync_queue (snd ?loop)"
    using performSync_sync_queue [OF accepted start] syncBody_sync_queue [of env ws]
    unfolding snap by simp
  have one: "filter (\<lambda>r. q_id r = q_id E) (sync_queue (snd (performSync env force w))) = [?E']"
  proof -
    from after have "filter (\<lambda>r. q_id r = q_id ?E') (sync_queue (snd ?loop)) = [?E']"
      using only_row_with_id [of q_id "sync_queue (snd ?loop)" ?E'] by blast
    then show ?thesis unfolding final by simp
  qed
  have again: "?E' \<in> set (fst (getSyncQueue env w''))"
    if "sync_queue w'' = sync_queue (snd (performSync env force w))"
      and "sql_error env (clock w'') = None" for w''
    using getSyncQueue_ok [OF that(2)] that(1) final after by simp
  have ends: "fst ?loop = Inl e"
    if "sql_error env (clock (snd (processSyncItem env E w1))) = Some e" for e
  proof -
    obtain r2 w2 where s: "syncItem env E c1 w1 = (r2, w2)" by (cases "syncItem env E c1 w1")
    from syncItem_failed_unrecorded [OF fail that, of c1] s have "r2 = Inl e" by simp
    then show ?thesis by (simp add: processQueue_append pre s)
  qed
  from one again ends show ?thesis by blast
qed

lemma performSync_aged:
  assumes "r' \<in> set (sync_queue (snd (performSync env force w)))"
  shows "\<exists>r\<in>set (sync_queue w). aged r r'"
proof (cases "(syncInProgress w \<and> \<not> force) \<or> \<not> isOnline w")
  case True
  then have "performSync env force w = (Inr busy_result, w) \<or>
             performSync env force w = (Inr offline_result, w)"
    by (auto simp: performSync_def)
  with assms have "r' \<in> set (sync_queue w)" by auto
  then show ?thesis by (rule bexI [rotated]) simp
next
  case False
  then have accepted: "\<not> (syncInProgress w \<and> \<not> force)" "isOnline w" by auto
  obtain r1 ws where start:
    "notifyListeners env (SyncInProgress True) (w\<lparr>syncInProgress := True\<rparr>) = (r1, ws)"
    by (cases "notifyListeners env (SyncInProgress True) (w\<lparr>syncInProgress := True\<rparr>)")
  have qs: "sync_queue ws = sync_queue w"
    using notifyListeners_frame(3) [of env "SyncInProgress True" "w\<lparr>syncInProgress := True\<rparr>"]
    unfolding start by simp
  show ?thesis
  proof (cases r1)
    case (Inl e)
    with accepted start have "performSync env force w = (Inl e, ws)"
      by (auto simp: performSync_def)
    with assms qs have "r' \<in> set (sync_queue w)" by simp
    then show ?thesis by (rule bexI [rotated]) simp
  next
    case (Inr u)
    with start have start': "notifyListeners env (SyncInProgress True) (w\<lparr>syncInProgress := True\<rparr>)
        = (Inr (), ws)" by simp
    let ?snap = "fst (getSyncQueue env ws)" and ?w0 = "snd (getSyncQueue env ws)"
    have "sync_queue (snd (performSync env force w))
            = sync_queue (snd (processQueue env ?snap (0, 0) ?w0))"
      using performSync_sync_queue [OF accepted start'] syncBody_sync_queue [of env ws] by simp
    with assms have "r' \<in> set (sync_queue (snd (processQueue env ?snap (0, 0) ?w0)))" by simp
    from processQueue_aged [OF this] obtain r where "r \<in> set (sync_queue ?w0)" "aged r r'"
      by blast
    moreover have "sync_queue ?w0 = sync_queue w"
      using getSyncQueue_cases [of env ws] qs by simp
    ultimately show ?thesis by auto
  qed
qed

text \<open>
  Claim C5, as the code has it. Every row of the queue after a call of \<open>performSync\<close>
  is a row that was in the queue before the call, with the same or a larger \<open>attempts\<close>
  and every other column unchanged. Moreover, take a drain cycle that \<open>performSync\<close>
  accepts (guards passed, start event delivered without an exception), on a queue table
  whose ids are distinct (the PRIMARY KEY), with snapshot \<open>pre @ E # post\<close>, in which
  the turn of \<open>E\<close> is reached and \<open>processSyncItem\<close> throws for \<open>E\<close>. After the cycle
  the queue holds exactly one row with the id of \<open>E\<close>: \<open>E\<close> itself with every other
  column (record id, operation) unchanged and \<open>attempts\<close> one higher, provided the UPDATE
  that records the failure succeeds; when that statement fails, its exception ends the
  loop and \<open>attempts\<close> is unchanged. A snapshot that \<open>getSyncQueue\<close> then reads
  successfully from the queue table as the cycle left it presents this row again.
\<close>

theorem retry_persistence:
  "(\<forall>r'\<in>set (sync_queue (snd (performSync env force w))). \<exists>r\<in>set (sync_queue w). aged r r') \<and>
   (distinct (map q_id (sync_queue w)) \<and> \<not> (syncInProgress w \<and> \<not> force) \<and> isOnline w \<and>
    notifyListeners env (SyncInProgress True) (w\<lparr>syncInProgress := True\<rparr>) = (Inr (), ws) \<and>
    getSyncQueue env ws = (pre @ E # post, w0) \<and>
    processQueue env pre (0, 0) w0 = (Inr c1, w1) \<and>
    fst (processSyncItem env E w1) = Inl err \<longrightarrow>
      filter (\<lambda>r. q_id r = q_id E) (sync_queue (snd (performSync env force w)))
        = [E\<lparr>attempts := attempts E +
               (if sql_error env (clock (snd (processSyncItem env E w1))) = None then 1 else 0)\<rparr>] \<and>
      (\<forall>w''. sync_queue w'' = sync_queue (snd (performSync env force w)) \<and>
             sql_error env (clock w'') = None \<longrightarrow>
         E\<lparr>attempts := attempts E +
               (if sql_error env (clock (snd (processSyncItem env E w1))) = None then 1 else 0)\<rparr>
           \<in> set (fst (getSyncQueue env w''))) \<and>
      (\<forall>e. sql_error env (clock (snd (processSyncItem env E w1))) = Some e \<longrightarrow>
         fst (processQueue env (pre @ E # post) (0, 0) w0) = Inl e))"
  using performSync_aged [of _ env force w]
    failed_entry_after_cycle [of w force env ws pre E post w0 c1 w1 err]
  by blast

theorem retry_persistence_witness:
  "fst (performSync put_failing_env False two_entry_world) = Inr (completed_result 1 1) \<and>
   filter (\<lambda>r. q_id r = 2) (sync_queue (snd (performSync put_failing_env False two_entry_world)))
     = [update_entry\<lparr>attempts := 1\<rparr>] \<and>
   update_entry\<lparr>attempts := 1\<rparr>
     \<in> set (fst (getSyncQueue put_failing_env (snd (performSync put_failing_env False two_entry_world))))"
proof -
  let ?ws = "snd (notifyListeners put_failing_env (SyncInProgress True)
                    (two_entry_world\<lparr>syncInProgress := True\<rparr>))"
  let ?w0 = "snd (getSyncQueue put_failing_env ?ws)"
  let ?w1 = "snd (processQueue put_failing_env [password_entry] (0, 0) ?w0)"
  let ?wf = "snd (performSync put_failing_env False two_entry_world)"
  have nosql: "\<forall>n. sql_error put_failing_env n = None"
    by (simp add: put_failing_env_def quiet_env_def)
  have pk: "distinct (map q_id (sync_queue two_entry_world))"
    by (simp add: two_entry_world_def idle_world_def password_entry_def update_entry_def)
  have accepted: "\<not> (syncInProgress two_entry_world \<and> \<not> False)" "isOnline two_entry_world"
    by (simp_all add: two_entry_world_def idle_world_def)
  have start: "notifyListeners put_failing_env (SyncInProgress True)
                 (two_entry_world\<lparr>syncInProgress := True\<rparr>) = (Inr (), ?ws)"
    by (simp add: notifyListeners_def quiet_env_def idle_world_def put_failing_env_def two_entry_world_def)
  have snap: "getSyncQueue put_failing_env ?ws = ([password_entry] @ update_entry # [], ?w0)"
    by (simp add: store_defs engine_defs quiet_env_def idle_world_def put_failing_env_def two_entry_world_def
          password_entry_def update_entry_def pd1_def password_json_def)
  have pre: "processQueue put_failing_env [password_entry] (0, 0) ?w0 = (Inr (1, 0), ?w1)"
    by (simp add: store_defs engine_defs quiet_env_def idle_world_def put_failing_env_def two_entry_world_def
          password_entry_def update_entry_def pd1_def password_json_def)
  have fail: "fst (processSyncItem put_failing_env update_entry ?w1)
                = Inl (JsError ''Error'' ''Password sync failed: Network request failed'')"
    by (simp add: store_defs engine_defs quiet_env_def idle_world_def put_failing_env_def two_entry_world_def
          password_entry_def update_entry_def pd1_def password_json_def)
  from retry_persistence [of put_failing_env False two_entry_world "?ws" "[password_entry]"
         update_entry "[]" "?w0" "(1, 0)" "?w1"
         "JsError ''Error'' ''Password sync failed: Network request failed''"]
       pk accepted start snap pre fail
  have main: "filter (\<lambda>r. q_id r = q_id update_entry) (sync_queue ?wf)
        = [update_entry\<lparr>attempts := attempts update_entry +
               (if sql_error put_failing_env (clock (snd (processSyncItem put_failing_env update_entry ?w1))) = None
                then 1 else 0)\<rparr>] \<and>
      (\<forall>w''. sync_queue w'' = sync_queue ?wf \<and> sql_error put_failing_env (clock w'') = None \<longrightarrow>
         update_entry\<lparr>attempts := attempts update_entry +
               (if sql_error put_failing_env (clock (snd (processSyncItem put_failing_env update_entry ?w1))) = None
                then 1 else 0)\<rparr>
           \<in> set (fst (getSyncQueue put_failing_env w'')))"
    by blast
  have res: "fst (performSync put_failing_env False two_entry_world) = Inr (completed_result 1 1)"
    by (simp add: store_defs engine_defs quiet_env_def idle_world_def put_failing_env_def two_entry_world_def
          password_entry_def update_entry_def pd1_def password_json_def)
  have id: "q_id update_entry = 2" "attempts update_entry = 0"
    by (simp_all add: update_entry_def)
  from main nosql id
  have one: "filter (\<lambda>r. q_id r = 2) (sync_queue ?wf) = [update_entry\<lparr>attempts := 1\<rparr>]"
    by simp
  from main nosql have "\<forall>w''. sync_queue w'' = sync_queue ?wf \<longrightarrow>
      update_entry\<lparr>attempts := attempts update_entry + 1\<rparr> \<in> set (fst (getSyncQueue put_failing_env w''))"
    by simp
  then have "update_entry\<lparr>attempts := attempts update_entry + 1\<rparr>
      \<in> set (fst (getSyncQueue put_failing_env ?wf))"
    by blast
  with id res one show ?thesis by simp
qed

theorem unrecorded_failure_counterexample:
  "sync_queue one_entry_world = [password_entry] \<and>
   fst (processSyncItem update_fault_env password_entry
          (snd (getSyncQueue update_fault_env
                  (snd (notifyListeners update_fault_env (SyncInProgress True)
                          (one_entry_world\<lparr>syncInProgress := True\<rparr>))))))
     = Inl (JsError ''Error'' ''Password sync failed: Network request failed'') \<and>
   fst (performSync update_fault_env False one_entry_world) = Inr (failed_result disk_error) \<and>
   sync_queue (snd (performSync update_fault_env False one_entry_world)) = [password_entry] \<and>
   attempts password_entry = 0"
  by (simp add: store_defs engine_defs update_fault_env_def unreachable_env_def quiet_env_def
        idle_world_def one_entry_world_def password_entry_def pd1_def password_json_def disk_error_def)

text \<open>
  The hypothesis on the ids is an invariant of the table: AUTOINCREMENT gives every new
  queue row an id larger than all ids present.
\<close>

lemma fold_max_ge: "(seq::nat) \<le> fold max ids seq \<and> (\<forall>x\<in>set ids. x \<le> fold max ids seq)"
proof (induction ids arbitrary: seq)
  case Nil
  then show ?case by simp
next
  case (Cons a ids)
  from Cons.IH [of "max a seq"] show ?case by auto
qed

lemma addToSyncQueue_distinct:
  assumes "distinct (map q_id (sync_queue w))"
  shows "distinct (map q_id (sync_queue (addToSyncQueue env t r op d w)))"
proof -
  have "fresh_id (map q_id (sync_queue w)) (sync_queue_seq w) \<notin> q_id ` set (sync_queue w)"
    using fold_max_ge [of "sync_queue_seq w" "map q_id (sync_queue w)"]
    by (fastforce simp: fresh_id_def)
  with assms show ?thesis
    by (simp add: addToSyncQueue_def executeSql_def insert_queue_def Let_def split: option.splits)
qed

end
